theory Spec2Isabelle
  imports Complex_Main "HOL-Library.AList"
begin

section \<open>Numbers\<close>

text \<open>
  The program computes on JavaScript numbers. They are modelled as mathematical reals:
  rounding, NaN, the infinities and signed zeros are outside the model, and every theorem
  below is a statement about the exact arithmetic the code writes down.

  \<^verbatim>\<open>a % b\<close> is JavaScript's remainder: the quotient is truncated toward zero, so the
  result carries the sign of the dividend. (For \<open>b = 0\<close> JavaScript yields NaN; the
  program only ever divides by the constant 360.)
\<close>

definition js_trunc :: "real \<Rightarrow> int" where
  "js_trunc q = (if 0 \<le> q then \<lfloor>q\<rfloor> else \<lceil>q\<rceil>)"

definition js_rem :: "real \<Rightarrow> real \<Rightarrow> real" where
  "js_rem a b = a - b * of_int (js_trunc (a / b))"

text \<open>
  \<^verbatim>\<open>Math.atan2(y, x)\<close> on reals: the angle of the point \<open>(x, y)\<close> in \<open>(-pi, pi]\<close>, and 0 at
  the origin.
\<close>

definition atan2 :: "real \<Rightarrow> real \<Rightarrow> real" where
  "atan2 y x =
     (if 0 < x then arctan (y / x)
      else if x < 0 \<and> 0 \<le> y then arctan (y / x) + pi
      else if x < 0 then arctan (y / x) - pi
      else if 0 < y then pi / 2
      else if y < 0 then - (pi / 2)
      else 0)"

section \<open>Geo math (geo.ts)\<close>

definition toRad :: "real \<Rightarrow> real" where
  "toRad deg = (deg * pi) / 180"

definition toDeg :: "real \<Rightarrow> real" where
  "toDeg rad = (rad * 180) / pi"

definition wrap360 :: "real \<Rightarrow> real" where
  "wrap360 deg = (let d = js_rem deg 360 in if d < 0 then d + 360 else d)"

definition wrap180 :: "real \<Rightarrow> real" where
  "wrap180 deg = js_rem (js_rem (deg + 180) 360 + 360) 360 - 180"

definition haversineDistanceKm :: "real \<Rightarrow> real \<Rightarrow> real \<Rightarrow> real \<Rightarrow> real" where
  "haversineDistanceKm lat1 lon1 lat2 lon2 =
     (let R = 6371.0088;
          dLat = toRad (lat2 - lat1);
          dLon = toRad (lon2 - lon1);
          a = (sin (dLat / 2))\<^sup>2 + cos (toRad lat1) * cos (toRad lat2) * (sin (dLon / 2))\<^sup>2;
          c = 2 * atan2 (sqrt a) (sqrt (1 - a))
      in R * c)"

definition initialBearingDeg :: "real \<Rightarrow> real \<Rightarrow> real \<Rightarrow> real \<Rightarrow> real" where
  "initialBearingDeg lat1 lon1 lat2 lon2 =
     (let phi1 = toRad lat1;
          phi2 = toRad lat2;
          dLon = toRad (lon2 - lon1);
          y = sin dLon * cos phi2;
          x = cos phi1 * sin phi2 - sin phi1 * cos phi2 * cos dLon;
          brng = toDeg (atan2 y x)
      in wrap360 brng)"

section \<open>Screen projection (projection.ts)\<close>

definition azimuthToScreenX :: "real \<Rightarrow> real \<Rightarrow> real \<Rightarrow> real" where
  "azimuthToScreenX deltaAzDeg hfov wd =
     (let halfWidth = wd / 2;
          x = (deltaAzDeg / hfov) * halfWidth + halfWidth
      in max 0 (min wd x))"

definition pitchToScreenY :: "real \<Rightarrow> real \<Rightarrow> real \<Rightarrow> real" where
  "pitchToScreenY pitch vfov ht =
     (let halfHeight = ht / 2;
          y = (- pitch / vfov) * halfHeight + halfHeight
      in max 0 (min ht y))"

definition estimateVfovDeg :: "real \<Rightarrow> real \<Rightarrow> real \<Rightarrow> real" where
  "estimateVfovDeg hfov wd ht = hfov * (ht / max 1 wd)"

definition isWithinFov :: "real \<Rightarrow> real \<Rightarrow> bool" where
  "isWithinFov deltaAzDeg hfov =
     (let half = hfov / 2 in - half \<le> deltaAzDeg \<and> deltaAzDeg \<le> half)"

datatype Side = SideLeft | SideRight

definition edgeSide :: "real \<Rightarrow> Side" where
  "edgeSide deltaAzDeg = (if deltaAzDeg < 0 then SideLeft else SideRight)"

section \<open>Data model (types.ts)\<close>

text \<open>
  A \<open>City\<close> has the two fields of a \<open>LatLon\<close> and three more, so the record extends it.
  A renderer input's \<open>populationOpacity\<close> map is never read by the renderer and is left
  out.
\<close>

datatype Units = Km | Mi

record LatLon =
  lat :: real
  lon :: real

record City = LatLon +
  name :: string
  country :: string
  population :: real

datatype OrientationSource = GenericSensor | DeviceOrientationMotion | DeviceOrientation | Virtual

record OrientationSample =
  headingDeg :: real
  pitchDeg :: real
  rollDeg :: real
  source :: OrientationSource
  timestamp :: real

record RendererInput =
  width :: real
  height :: real
  hfovDeg :: real
  pitchDeg :: real
  headingDeg :: real
  units :: Units
  maxDistanceKm :: real
  user :: LatLon
  cities :: "City list"
  showOffscreenIndicators :: bool
  showMinimap :: "bool option"

section \<open>Fade tracker (renderer.ts, updateAlpha)\<close>

text \<open>
  The module-level \<open>labelAlpha\<close> map is an association list with one entry per key, in
  insertion order, threaded through the calls. A missing key reads as 0, as
  \<^verbatim>\<open>labelAlpha.get(k) ?? 0\<close> does. A \<^verbatim>\<open>Set<string>\<close> is a list without repetitions, in
  insertion order.
\<close>

type_synonym AlphaMap = "(string \<times> real) list"

definition alphaOf :: "AlphaMap \<Rightarrow> string \<Rightarrow> real" where
  "alphaOf la k = (case map_of la k of None \<Rightarrow> 0 | Some a \<Rightarrow> a)"

definition setAdd :: "string \<Rightarrow> string list \<Rightarrow> string list" where
  "setAdd k ks = (if k \<in> set ks then ks else ks @ [k])"

definition setUnion :: "string list \<Rightarrow> string list \<Rightarrow> string list" where
  "setUnion ks js = rev (remdups (rev (ks @ js)))"

definition fadeInPerSec :: real where
  "fadeInPerSec = 4"

definition fadeOutPerSec :: real where
  "fadeOutPerSec = 3"

text \<open>The body of the loop over the keys, then the loop.\<close>

definition updateAlphaKey :: "string list \<Rightarrow> real \<Rightarrow> string \<Rightarrow> AlphaMap \<Rightarrow> AlphaMap" where
  "updateAlphaKey targetVisible dt k la =
     (let cur = alphaOf la k;
          vis = (k \<in> set targetVisible);
          next = (if vis then min 1 (cur + fadeInPerSec * dt)
                  else max 0 (cur - fadeOutPerSec * dt))
      in if next \<le> 0 \<and> \<not> vis then AList.delete k la else AList.update k next la)"

definition updateAlpha :: "string list \<Rightarrow> real \<Rightarrow> AlphaMap \<Rightarrow> AlphaMap" where
  "updateAlpha targetVisible dt la =
     fold (updateAlphaKey targetVisible dt) (setUnion (map fst la) targetVisible) la"

text \<open>
  The tracker after a run of frames, from the empty map the module starts with: each
  frame hands \<open>updateAlpha\<close> its target set and its time step.
\<close>

definition fadeFrames :: "(string list \<times> real) list \<Rightarrow> AlphaMap" where
  "fadeFrames fs = foldl (\<lambda>la (tv, dt). updateAlpha tv dt la) [] fs"

text \<open>Two notions for stating the tracker's properties.\<close>

definition alphasInUnit :: "AlphaMap \<Rightarrow> bool" where
  "alphasInUnit la = list_all (\<lambda>(k, a). 0 \<le> a \<and> a \<le> 1) la"

definition fadeNext :: "string list \<Rightarrow> real \<Rightarrow> AlphaMap \<Rightarrow> string \<Rightarrow> real" where
  "fadeNext tv dt la k =
     (if k \<in> set tv then min 1 (alphaOf la k + 4 * dt) else max 0 (alphaOf la k - 3 * dt))"

section \<open>Label layout (renderer.ts)\<close>

text \<open>The fields of a \<open>Rect\<close> are \<open>x\<close>, \<open>y\<close>, \<open>w\<close>, \<open>h\<close> in the source.\<close>

record Rect =
  rx :: real
  ry :: real
  rw :: real
  rh :: real

definition keyOf :: "City \<Rightarrow> string" where
  "keyOf c = name c @ ''|'' @ country c"

text \<open>
  \<open>measureLabel\<close> takes the width the canvas measures for the text, in place of the canvas
  and the text, and returns the padded width and the fixed line height.
\<close>

definition measureLabel :: "real \<Rightarrow> real \<times> real" where
  "measureLabel textWidth = (let fixedLineHeight = 24; w = textWidth + 12 in (w, fixedLineHeight))"

definition rectsOverlap :: "Rect \<Rightarrow> Rect \<Rightarrow> bool" where
  "rectsOverlap a b =
     (\<not> (rx a + rw a < rx b \<or> rx b + rw b < rx a \<or> ry a + rh a < ry b \<or> ry b + rh b < ry a))"

text \<open>
  \<open>findNonOverlappingY\<close>: the list of candidate offsets, then the loop over it with the
  set of positions already tried.
\<close>

definition candidateYs :: "real \<Rightarrow> real \<Rightarrow> int \<Rightarrow> real list" where
  "candidateYs baseY step maxSteps =
     [baseY] @ map (\<lambda>i. baseY - of_int i * step) [1..maxSteps]
             @ map (\<lambda>i. baseY + of_int i * step) [1..maxSteps]"

fun searchY :: "Rect \<Rightarrow> Rect list \<Rightarrow> real \<Rightarrow> real set \<Rightarrow> real list \<Rightarrow> real option" where
  "searchY rect pl ht tried [] = None"
| "searchY rect pl ht tried (y0 # ys) =
     (let y = max 0 (min (ht - rh rect) y0) in
      if y \<in> tried then searchY rect pl ht tried ys
      else if \<not> list_ex (\<lambda>p. rectsOverlap p (rect\<lparr>ry := y\<rparr>)) pl then Some y
      else searchY rect pl ht (insert y tried) ys)"

definition findNonOverlappingY :: "Rect \<Rightarrow> Rect list \<Rightarrow> real \<Rightarrow> int \<Rightarrow> real option" where
  "findNonOverlappingY rect pl ht maxSteps =
     (let step = max 12 (rh rect + 6);
          baseY = ry rect
      in searchY rect pl ht {} (candidateYs baseY step maxSteps))"

text \<open>
  One element of \<open>candidates\<close> in \<open>render\<close> (its field \<open>city\<close> is \<open>c\<close> in the source). The
  composed label text is only measured and
  drawn; the model takes the width \<^verbatim>\<open>ctx.measureText(text).width\<close> of a candidate's label
  as the parameter \<open>textWidth\<close>, so every theorem holds for every way of measuring text.
\<close>

record Cand =
  city :: City
  distKm :: real
  bearing :: real

text \<open>
  What \<open>render\<close> draws for the cities: a label card or an edge chevron, for a candidate, at
  a rectangle, with an opacity. (The horizon line and the coastline inset are not
  recorded.)
\<close>

datatype Draw = DrawLabel Cand Rect real | DrawEdge Side Cand Rect real

text \<open>The local variables of \<open>render\<close> that its loop over the candidates updates.\<close>

record Frame =
  placed :: "Rect list"
  edgeLeftPlaced :: "Rect list"
  edgeRightPlaced :: "Rect list"
  visibleKeys :: "string list"
  drawn :: "Draw list"

definition emptyFrame :: Frame where
  "emptyFrame = \<lparr>placed = [], edgeLeftPlaced = [], edgeRightPlaced = [], visibleKeys = [], drawn = []\<rparr>"

definition maxLabelHeight :: real where
  "maxLabelHeight = 24"

definition candidatesOf :: "RendererInput \<Rightarrow> Cand list" where
  "candidatesOf inp =
     sort_key (\<lambda>a. - population (city a))
       (filter (\<lambda>x. distKm x \<le> maxDistanceKm inp)
         (map (\<lambda>c. \<lparr>city = c,
                     distKm = haversineDistanceKm (lat (user inp)) (lon (user inp)) (lat c) (lon c),
                     bearing = initialBearingDeg (lat (user inp)) (lon (user inp)) (lat c) (lon c)\<rparr>)
              (cities inp)))"

definition horizonOf :: "RendererInput \<Rightarrow> real" where
  "horizonOf inp =
     (let vfovDeg = estimateVfovDeg (hfovDeg inp) (width inp) (height inp)
      in pitchToScreenY (RendererInput.pitchDeg inp) vfovDeg (height inp))"

definition itemDeltaAz :: "RendererInput \<Rightarrow> Cand \<Rightarrow> real" where
  "itemDeltaAz inp item = wrap180 (bearing item - RendererInput.headingDeg inp)"

definition itemOffscreen :: "RendererInput \<Rightarrow> Cand \<Rightarrow> bool" where
  "itemOffscreen inp item = (\<not> isWithinFov (itemDeltaAz inp item) (hfovDeg inp))"

definition labelRect :: "(Cand \<Rightarrow> real) \<Rightarrow> RendererInput \<Rightarrow> real \<Rightarrow> Cand \<Rightarrow> Rect" where
  "labelRect textWidth inp horizonY item =
     (let (w, h) = measureLabel (textWidth item);
          x = azimuthToScreenX (itemDeltaAz inp item) (hfovDeg inp) (width inp);
          yBase = max 0 (min (height inp - maxLabelHeight) (horizonY - 6))
      in \<lparr>rx = max 4 (min (width inp - w - 4) (x - w / 2)), ry = yBase - h, rw = w, rh = h\<rparr>)"

definition edgeRectOf :: "(Cand \<Rightarrow> real) \<Rightarrow> RendererInput \<Rightarrow> real \<Rightarrow> Cand \<Rightarrow> Rect" where
  "edgeRectOf textWidth inp horizonY item =
     (let (w, h) = measureLabel (textWidth item);
          side = edgeSide (itemDeltaAz inp item);
          margin = 6
      in if side = SideLeft
         then \<lparr>rx = margin, ry = max 0 (min (height inp - h) (horizonY - h / 2)), rw = w, rh = h\<rparr>
         else \<lparr>rx = width inp - margin - w, ry = max 0 (min (height inp - h) (horizonY - h / 2)),
               rw = w, rh = h\<rparr>)"

text \<open>The body of the loop over the candidates; a \<^verbatim>\<open>continue\<close> returns the frame as it is.\<close>

definition renderItem ::
  "(Cand \<Rightarrow> real) \<Rightarrow> RendererInput \<Rightarrow> real \<Rightarrow> AlphaMap \<Rightarrow> Cand \<Rightarrow> Frame \<Rightarrow> Frame" where
  "renderItem textWidth inp horizonY labelAlpha item fr =
     (let key = keyOf (city item);
          rect = labelRect textWidth inp horizonY item
      in if \<not> itemOffscreen inp item then
           (let maxSteps = \<lceil>height inp / (rh rect + 6)\<rceil> + 2 in
            case findNonOverlappingY rect (placed fr) (height inp) maxSteps of
              None \<Rightarrow> fr
            | Some yPlaced \<Rightarrow>
                (let rect' = rect\<lparr>ry := yPlaced\<rparr>;
                     fr' = fr\<lparr>placed := placed fr @ [rect'],
                              visibleKeys := setAdd key (visibleKeys fr)\<rparr>;
                     alpha = alphaOf labelAlpha key
                 in if alpha \<le> 0.01 then fr'
                    else fr'\<lparr>drawn := drawn fr' @ [DrawLabel item rect' alpha]\<rparr>))
         else if \<not> showOffscreenIndicators inp then
           fr\<lparr>visibleKeys := setAdd key (visibleKeys fr)\<rparr>
         else
           (let fr' = fr\<lparr>visibleKeys := setAdd key (visibleKeys fr)\<rparr>;
                alpha = alphaOf labelAlpha key
            in if alpha \<le> 0.01 then fr'
               else
                 (let side = edgeSide (itemDeltaAz inp item);
                      edgeRect = edgeRectOf textWidth inp horizonY item;
                      used = (if side = SideLeft then edgeLeftPlaced fr' else edgeRightPlaced fr');
                      maxStepsEdge = \<lceil>height inp / (rh edgeRect + 6)\<rceil> + 2
                  in case findNonOverlappingY edgeRect used (height inp) maxStepsEdge of
                       None \<Rightarrow> fr'
                     | Some yPlaced \<Rightarrow>
                         (let edgeRect' = edgeRect\<lparr>ry := yPlaced\<rparr>;
                              fr'' = (if side = SideLeft
                                      then fr'\<lparr>edgeLeftPlaced := edgeLeftPlaced fr' @ [edgeRect']\<rparr>
                                      else fr'\<lparr>edgeRightPlaced := edgeRightPlaced fr' @ [edgeRect']\<rparr>)
                          in fr''\<lparr>drawn := drawn fr'' @ [DrawEdge side item edgeRect' alpha]\<rparr>))))"

definition layoutFrame ::
  "(Cand \<Rightarrow> real) \<Rightarrow> RendererInput \<Rightarrow> AlphaMap \<Rightarrow> Cand list \<Rightarrow> Frame \<Rightarrow> Frame" where
  "layoutFrame textWidth inp labelAlpha items fr =
     fold (renderItem textWidth inp (horizonOf inp) labelAlpha) items fr"

text \<open>
  The state \<open>render\<close> keeps between frames (the tracker and \<^verbatim>\<open>lastNowRef.v\<close>), and what a
  call yields: its result, the frame it laid out, and the state for the next call.
\<close>

record RenderState =
  labelAlpha :: AlphaMap
  lastNow :: real

record RenderOut =
  visibleCount :: nat
  frame :: Frame
  state :: RenderState

definition frameDt :: "real \<Rightarrow> RenderState \<Rightarrow> real" where
  "frameDt now st = (if lastNow st \<noteq> 0 then min 0.1 ((now - lastNow st) / 1000) else 0)"

definition render :: "(Cand \<Rightarrow> real) \<Rightarrow> RendererInput \<Rightarrow> real \<Rightarrow> RenderState \<Rightarrow> RenderOut" where
  "render textWidth inp now st =
     (let candidates = candidatesOf inp;
          dt = frameDt now st;
          fr = layoutFrame textWidth inp (labelAlpha st) candidates emptyFrame
      in \<lparr>visibleCount = length (placed fr),
          frame = fr,
          state = \<lparr>labelAlpha = updateAlpha (visibleKeys fr) dt (labelAlpha st), lastNow = now\<rparr>\<rparr>)"

text \<open>Notions for stating the layout's properties.\<close>

fun noOverlaps :: "Rect list \<Rightarrow> bool" where
  "noOverlaps [] = True"
| "noOverlaps (r # rs) = (list_all (\<lambda>p. \<not> rectsOverlap r p) rs \<and> noOverlaps rs)"

definition insideViewport :: "real \<Rightarrow> real \<Rightarrow> Rect \<Rightarrow> bool" where
  "insideViewport wd ht r = (0 \<le> rx r \<and> rx r + rw r \<le> wd \<and> 0 \<le> ry r \<and> ry r + rh r \<le> ht)"

definition poolsDisjoint :: "Frame \<Rightarrow> bool" where
  "poolsDisjoint fr =
     (noOverlaps (placed fr) \<and> noOverlaps (edgeLeftPlaced fr) \<and> noOverlaps (edgeRightPlaced fr))"

text \<open>
  For a candidate at position \<open>i\<close> of the sorted list: the slot the vertical search returns
  when the loop reaches it, given the labels placed for the candidates before it.
\<close>

definition slotOffered :: "(Cand \<Rightarrow> real) \<Rightarrow> RendererInput \<Rightarrow> AlphaMap \<Rightarrow> nat \<Rightarrow> real option" where
  "slotOffered tw inp la i =
     (let item = candidatesOf inp ! i;
          rect = labelRect tw inp (horizonOf inp) item;
          before = layoutFrame tw inp la (take i (candidatesOf inp)) emptyFrame
      in findNonOverlappingY rect (placed before) (height inp) (\<lceil>height inp / (rh rect + 6)\<rceil> + 2))"

text \<open>A draw call for the label of a candidate inside the field of view.\<close>

definition onscreenLabel :: "RendererInput \<Rightarrow> Draw \<Rightarrow> bool" where
  "onscreenLabel inp d =
     (case d of DrawLabel item r a \<Rightarrow> \<not> itemOffscreen inp item | DrawEdge sd item r a \<Rightarrow> False)"

section \<open>Orientation engine (sensors.ts)\<close>

definition smoothAngle :: "real \<Rightarrow> real \<Rightarrow> real \<Rightarrow> real" where
  "smoothAngle prev nxt factor =
     (let delta = wrap180 (nxt - prev) in wrap360 (prev + delta * (1 - exp (- factor))))"

definition smoothLinear :: "real \<Rightarrow> real \<Rightarrow> real \<Rightarrow> real" where
  "smoothLinear prev nxt factor = prev + (nxt - prev) * (1 - exp (- factor))"

text \<open>\<open>quatToEuler\<close> returns yaw, pitch and roll, in this order, in degrees.\<close>

definition quatToEuler :: "real \<Rightarrow> real \<Rightarrow> real \<Rightarrow> real \<Rightarrow> real \<times> real \<times> real" where
  "quatToEuler qx qy qz qw =
     (let ysqr = qy * qy;
          t0 = 2 * (qw * qx + qy * qz);
          t1 = 1 - 2 * (qx * qx + ysqr);
          rollRad = atan2 t0 t1;
          t2 = max (- 1) (min 1 (2 * (qw * qy - qz * qx)));
          pitchRad = arcsin t2;
          t3 = 2 * (qw * qz + qx * qy);
          t4 = 1 - 2 * (ysqr + qz * qz);
          yawRad = atan2 t3 t4
      in ((yawRad * 180) / pi, (pitchRad * 180) / pi, (rollRad * 180) / pi))"

record OrientationOptions =
  smoothing :: real
  headingOffsetDeg :: real

text \<open>
  The variables \<open>startOrientation\<close> closes over. \<open>smoothing\<close> and \<open>headingOffsetDeg\<close> start as
  the options, so the record extends them. \<open>genericSensor\<close> says that a sensor object with
  its \<open>onreading\<close> handler exists and has not been stopped; \<open>fusionListening\<close> and
  \<open>virtualListening\<close> that the window listeners of the device-fusion and of the virtual
  source are registered; \<open>fallbackTimer\<close> holds the delay of the pending timeout;
  \<open>ticking\<close> that the animation-frame loop is running. \<open>dragging\<close>, \<open>lastX\<close> and \<open>lastY\<close> are
  the variables of \<open>startVirtual\<close>. The sample in \<open>lastEmit\<close> is the one \<open>emit\<close> hands to
  every listener.
\<close>

record Engine = OrientationOptions +
  src :: OrientationSource
  ticking :: bool
  yaw :: real
  pitch :: real
  roll :: real
  lastGyroTs :: real
  lastEmit :: OrientationSample
  headingMeas :: "real option"
  genericSensor :: bool
  fusionListening :: bool
  fallbackTimer :: "real option"
  virtualListening :: bool
  dragging :: bool
  lastX :: real
  lastY :: real

definition accelGain :: real where
  "accelGain = 0.02"

definition yawCorrectionGain :: real where
  "yawCorrectionGain = 0.01"

definition sensitivityHeading :: real where
  "sensitivityHeading = 0.1"

definition sensitivityPitch :: real where
  "sensitivityPitch = 0.1"

definition emit :: "real \<Rightarrow> Engine \<Rightarrow> Engine" where
  "emit now st =
     (let targetHeading = wrap360 (yaw st + headingOffsetDeg st);
          targetPitch = pitch st;
          targetRoll = roll st;
          smoothedHeading = smoothAngle (OrientationSample.headingDeg (lastEmit st)) targetHeading (smoothing st);
          smoothedPitch = smoothLinear (OrientationSample.pitchDeg (lastEmit st)) targetPitch (smoothing st);
          smoothedRoll = smoothLinear (rollDeg (lastEmit st)) targetRoll (smoothing st);
          out = \<lparr>OrientationSample.headingDeg = smoothedHeading,
                 OrientationSample.pitchDeg = smoothedPitch,
                 rollDeg = smoothedRoll,
                 source = src st,
                 timestamp = now\<rparr>
      in st\<lparr>lastEmit := out\<rparr>)"



definition onReading :: "real \<Rightarrow> (real \<times> real \<times> real \<times> real) option \<Rightarrow> Engine \<Rightarrow> Engine" where
  "onReading now q st =
     (case q of
        None \<Rightarrow> st
      | Some (q0, q1, q2, q3) \<Rightarrow>
          (case quatToEuler q0 q1 q2 q3 of
             (z, y, x) \<Rightarrow> emit now (st\<lparr>yaw := wrap360 z, pitch := y, roll := x\<rparr>)))"


definition onDO :: "real option \<Rightarrow> real option \<Rightarrow> Engine \<Rightarrow> Engine" where
  "onDO webkitCompassHeading alpha st =
     (case webkitCompassHeading of
        Some c \<Rightarrow> st\<lparr>headingMeas := Some (wrap360 c)\<rparr>
      | None \<Rightarrow>
          (case alpha of
             Some a \<Rightarrow> st\<lparr>headingMeas := Some (wrap360 a)\<rparr>
           | None \<Rightarrow> st))"

definition orElse :: "real option \<Rightarrow> real \<Rightarrow> real" where
  "orElse v d = (case v of None \<Rightarrow> d | Some r \<Rightarrow> r)"

type_synonym Axes = "real option \<times> real option \<times> real option"

definition onDM :: "real \<Rightarrow> Axes option \<Rightarrow> Axes option \<Rightarrow> Engine \<Rightarrow> Engine" where
  "onDM now rotationRate accelerationIncludingGravity st =
     (let dt = (if lastGyroTs st \<noteq> 0 then (now - lastGyroTs st) / 1000 else 0);
          st1 = st\<lparr>lastGyroTs := now\<rparr>;
          st2 = (case rotationRate of
                   None \<Rightarrow> st1
                 | Some (ra, rb, rg) \<Rightarrow>
                     (let gz = orElse ra 0; gx = orElse rb 0; gy = orElse rg 0
                      in st1\<lparr>yaw := wrap360 (yaw st1 + gz * dt),
                             pitch := pitch st1 + gx * dt,
                             roll := roll st1 + gy * dt\<rparr>));
          st3 = (case accelerationIncludingGravity of
                   None \<Rightarrow> st2
                 | Some (gx, gy, gz) \<Rightarrow>
                     (let ax = orElse gx 0; ay = orElse gy 0; az = orElse gz (- 9.8);
                          pitchAcc = (atan2 (- ax) (sqrt (ay * ay + az * az)) * 180) / pi;
                          rollAcc = (atan2 ay az * 180) / pi
                      in st2\<lparr>pitch := pitch st2 * (1 - accelGain) + pitchAcc * accelGain,
                             roll := roll st2 * (1 - accelGain) + rollAcc * accelGain\<rparr>));
          st4 = (case headingMeas st3 of
                   None \<Rightarrow> st3
                 | Some hm \<Rightarrow>
                     (let err = wrap180 (hm - yaw st3)
                      in st3\<lparr>yaw := wrap360 (yaw st3 + err * yawCorrectionGain)\<rparr>))
      in emit now st4)"

definition startVirtual :: "Engine \<Rightarrow> Engine" where
  "startVirtual st =
     st\<lparr>src := Virtual, dragging := False, lastX := 0, lastY := 0, virtualListening := True\<rparr>"

definition onDown :: "real \<Rightarrow> real \<Rightarrow> Engine \<Rightarrow> Engine" where
  "onDown clientX clientY st = st\<lparr>dragging := True, lastX := clientX, lastY := clientY\<rparr>"

definition onUp :: "Engine \<Rightarrow> Engine" where
  "onUp st = st\<lparr>dragging := False\<rparr>"

definition onMove :: "real \<Rightarrow> real \<Rightarrow> real \<Rightarrow> Engine \<Rightarrow> Engine" where
  "onMove clientX clientY now st =
     (if \<not> dragging st then st
      else
        (let dx = clientX - lastX st;
             dy = clientY - lastY st;
             st1 = st\<lparr>lastX := clientX, lastY := clientY\<rparr>;
             st2 = st1\<lparr>yaw := wrap360 (yaw st1 + dx * sensitivityHeading)\<rparr>;
             st3 = st2\<lparr>pitch := max (- 89) (min 89 (pitch st2 - dy * sensitivityPitch))\<rparr>
         in emit now st3))"

definition onFallbackTimeout :: "Engine \<Rightarrow> Engine" where
  "onFallbackTimeout st =
     (if lastGyroTs st = 0 \<and> headingMeas st = None then startVirtual st else st)"


text \<open>The methods of the handle.\<close>

definition setSmoothing :: "real \<Rightarrow> Engine \<Rightarrow> Engine" where
  "setSmoothing v st = st\<lparr>smoothing := max 0 (min 0.3 v)\<rparr>"

definition setHeadingOffset :: "real \<Rightarrow> Engine \<Rightarrow> Engine" where
  "setHeadingOffset deg st = st\<lparr>headingOffsetDeg := deg\<rparr>"


definition stop :: "Engine \<Rightarrow> Engine" where
  "stop st =
     st\<lparr>ticking := False, fusionListening := False, fallbackTimer := None,
        virtualListening := False, genericSensor := False\<rparr>"

text \<open>
  What happens to a running engine: a callback the platform invokes, or a call of the
  handle. A callback runs only while it is registered; the timeout fires once, unless
  \<open>stop\<close> cleared it.
\<close>

datatype Event =
    Reading real "(real \<times> real \<times> real \<times> real) option"
  | DeviceOrientationEvent "real option" "real option"
  | DeviceMotionEvent real "Axes option" "Axes option"
  | FallbackTimeout
  | PointerDown real real
  | PointerUp
  | PointerMove real real real
  | AnimationFrame real
  | SetSmoothing real
  | SetHeadingOffset real
  | Stop

definition step :: "Event \<Rightarrow> Engine \<Rightarrow> Engine" where
  "step ev st =
     (case ev of
        Reading now q \<Rightarrow> if genericSensor st then onReading now q st else st
      | DeviceOrientationEvent c a \<Rightarrow> if fusionListening st then onDO c a st else st
      | DeviceMotionEvent now rr ag \<Rightarrow> if fusionListening st then onDM now rr ag st else st
      | FallbackTimeout \<Rightarrow>
          (case fallbackTimer st of
             None \<Rightarrow> st
           | Some delay \<Rightarrow> onFallbackTimeout (st\<lparr>fallbackTimer := None\<rparr>))
      | PointerDown cx cy \<Rightarrow> if virtualListening st then onDown cx cy st else st
      | PointerUp \<Rightarrow> if virtualListening st then onUp st else st
      | PointerMove cx cy now \<Rightarrow> if virtualListening st then onMove cx cy now st else st
      | AnimationFrame now \<Rightarrow> if ticking st then emit now st else st
      | SetSmoothing v \<Rightarrow> setSmoothing v st
      | SetHeadingOffset deg \<Rightarrow> setHeadingOffset deg st
      | Stop \<Rightarrow> stop st)"





section \<open>Example inputs\<close>

text \<open>
  Cities at the user's own position (distance 0, bearing 0), a 60 degree field of view,
  level pitch, a 1000 km radius; two ways of measuring text; and the state before the
  first frame.
\<close>

definition demoCity :: "string \<Rightarrow> real \<Rightarrow> City" where
  "demoCity nm pop = \<lparr>lat = 40, lon = - 74, name = nm, country = ''US'', population = pop\<rparr>"

definition demoInput :: "real \<Rightarrow> real \<Rightarrow> real \<Rightarrow> City list \<Rightarrow> bool \<Rightarrow> RendererInput" where
  "demoInput wd ht hdg cs ind =
     \<lparr>width = wd, height = ht, hfovDeg = 60, pitchDeg = 0, headingDeg = hdg, units = Km,
      maxDistanceKm = 1000, user = \<lparr>lat = 40, lon = - 74\<rparr>, cities = cs,
      showOffscreenIndicators = ind, showMinimap = None\<rparr>"

definition demoCand :: "string \<Rightarrow> real \<Rightarrow> Cand" where
  "demoCand nm pop = \<lparr>city = demoCity nm pop, distKm = 0, bearing = 0\<rparr>"

definition textWidth100 :: "Cand \<Rightarrow> real" where
  "textWidth100 item = 100"

definition textWidth400 :: "Cand \<Rightarrow> real" where
  "textWidth400 item = 400"

definition freshState :: RenderState where
  "freshState = \<lparr>labelAlpha = [], lastNow = 0\<rparr>"


section \<open>Facts about the remainder and the two wraps\<close>

lemma js_rem_nonneg:
  assumes "0 \<le> a" and "0 < b"
  shows "js_rem a b = a - b * of_int \<lfloor>a / b\<rfloor>"
  using assms by (simp add: js_rem_def js_trunc_def)

lemma floor_residue_bounds:
  fixes a b :: real
  assumes "0 < b"
  shows "0 \<le> a - b * of_int \<lfloor>a / b\<rfloor>" and "a - b * of_int \<lfloor>a / b\<rfloor> < b"
proof -
  have ab: "b * (a / b) = a" using assms by simp
  have "of_int \<lfloor>a / b\<rfloor> \<le> a / b" by simp
  then have "b * of_int \<lfloor>a / b\<rfloor> \<le> b * (a / b)"
    using assms by (rule_tac mult_left_mono) simp_all
  then show "0 \<le> a - b * of_int \<lfloor>a / b\<rfloor>" using ab by simp
  have "a / b < of_int \<lfloor>a / b\<rfloor> + 1" by linarith
  then have "b * (a / b) < b * (of_int \<lfloor>a / b\<rfloor> + 1)"
    using assms by (rule_tac mult_strict_left_mono) simp_all
  then show "a - b * of_int \<lfloor>a / b\<rfloor> < b" using ab by (simp add: algebra_simps)
qed

lemma floor_residue_shift:
  fixes a b :: real
  assumes "0 < b"
  shows "(a + b * of_int n) - b * of_int \<lfloor>(a + b * of_int n) / b\<rfloor> = a - b * of_int \<lfloor>a / b\<rfloor>"
proof -
  have "(a + b * of_int n) / b = a / b + of_int n"
    using assms by (simp add: add_divide_distrib)
  then have "\<lfloor>(a + b * of_int n) / b\<rfloor> = \<lfloor>a / b\<rfloor> + n" by simp
  then show ?thesis by (simp add: algebra_simps)
qed

lemma wrap360_floor: "wrap360 deg = deg - 360 * of_int \<lfloor>deg / 360\<rfloor>"
proof (cases "0 \<le> deg")
  case True
  then have r: "js_rem deg 360 = deg - 360 * of_int \<lfloor>deg / 360\<rfloor>"
    by (simp add: js_rem_nonneg)
  moreover have "0 \<le> deg - 360 * of_int \<lfloor>deg / 360\<rfloor>"
    using floor_residue_bounds(1) [of 360 deg] by simp
  ultimately show ?thesis by (simp add: wrap360_def Let_def)
next
  case False
  then have r: "js_rem deg 360 = deg - 360 * of_int \<lceil>deg / 360\<rceil>"
    by (simp add: js_rem_def js_trunc_def)
  show ?thesis
  proof (cases "of_int \<lfloor>deg / 360\<rfloor> = deg / 360")
    case True
    then have "\<lceil>deg / 360\<rceil> = \<lfloor>deg / 360\<rfloor>"
      by (metis ceiling_of_int)
    moreover from True have "deg - 360 * of_int \<lfloor>deg / 360\<rfloor> = 0" by simp
    ultimately show ?thesis using r by (simp add: wrap360_def Let_def)
  next
    case False
    then have c: "\<lceil>deg / 360\<rceil> = \<lfloor>deg / 360\<rfloor> + 1"
      by (simp add: ceiling_altdef)
    have "deg - 360 * of_int \<lfloor>deg / 360\<rfloor> < 360"
      using floor_residue_bounds(2) [of 360 deg] by simp
    then have "js_rem deg 360 < 0" using r c by (simp add: algebra_simps)
    then show ?thesis using r c by (simp add: wrap360_def Let_def algebra_simps)
  qed
qed

lemma js_rem_abs_less:
  assumes "0 < b"
  shows "- b < js_rem a b" and "js_rem a b < b"
proof -
  have ab: "b * (a / b) = a" using assms by simp
  have f1: "0 \<le> a - b * of_int \<lfloor>a / b\<rfloor>" and f2: "a - b * of_int \<lfloor>a / b\<rfloor> < b"
    using floor_residue_bounds [OF assms, of a] by simp_all
  have "of_int \<lceil>a / b\<rceil> < a / b + 1" using ceiling_correct [of "a / b"] by linarith
  then have "b * of_int \<lceil>a / b\<rceil> < b * (a / b + 1)"
    using assms by (rule_tac mult_strict_left_mono) simp_all
  then have m1: "b * of_int \<lceil>a / b\<rceil> < a + b"
    using ab by (simp add: algebra_simps)
  have "a / b \<le> of_int \<lceil>a / b\<rceil>" by simp
  then have "b * (a / b) \<le> b * of_int \<lceil>a / b\<rceil>"
    using assms by (rule_tac mult_left_mono) simp_all
  then have m2: "a \<le> b * of_int \<lceil>a / b\<rceil>" using ab by simp
  show "- b < js_rem a b"
  proof (cases "0 \<le> a / b")
    case True
    then show ?thesis using f1 assms by (simp add: js_rem_def js_trunc_def)
  next
    case False
    then have "js_rem a b = a - b * of_int \<lceil>a / b\<rceil>"
      by (simp add: js_rem_def js_trunc_def)
    then show ?thesis using m1 by linarith
  qed
  show "js_rem a b < b"
  proof (cases "0 \<le> a / b")
    case True
    then show ?thesis using f2 by (simp add: js_rem_def js_trunc_def)
  next
    case False
    then have "js_rem a b = a - b * of_int \<lceil>a / b\<rceil>"
      by (simp add: js_rem_def js_trunc_def)
    then show ?thesis using m2 assms by linarith
  qed
qed

lemma js_rem_congruent:
  "\<exists>n::int. js_rem a b = a - b * of_int n"
  by (auto simp: js_rem_def)

lemma wrap180_floor: "wrap180 deg = deg - 360 * of_int \<lfloor>(deg + 180) / 360\<rfloor>"
proof -
  obtain n :: int where n: "js_rem (deg + 180) 360 = (deg + 180) - 360 * of_int n"
    using js_rem_congruent by blast
  define r where "r = js_rem (deg + 180) 360 + 360"
  have rpos: "0 \<le> r"
    using js_rem_abs_less(1) [of 360 "deg + 180"] by (simp add: r_def)
  have rshift: "r = (deg + 180) + 360 * of_int (1 - n)"
    by (simp add: r_def n algebra_simps)
  have "js_rem r 360 = r - 360 * of_int \<lfloor>r / 360\<rfloor>"
    using rpos by (simp add: js_rem_nonneg)
  also have "\<dots> = (deg + 180) - 360 * of_int \<lfloor>(deg + 180) / 360\<rfloor>"
    unfolding rshift using floor_residue_shift [of 360 "deg + 180" "1 - n"] by simp
  finally show ?thesis by (simp add: wrap180_def r_def)
qed


lemma wrap180_range: "- 180 \<le> wrap180 deg" "wrap180 deg < 180"
  using floor_residue_bounds [of 360 "deg + 180"] by (simp_all add: wrap180_floor)


lemma wrap180_fixed:
  assumes "- 180 \<le> d" and "d < 180"
  shows "wrap180 d = d"
proof -
  have "0 \<le> (d + 180) / 360" and "(d + 180) / 360 < 1" using assms by simp_all
  then have "\<lfloor>(d + 180) / 360\<rfloor> = 0" by linarith
  then show ?thesis by (simp add: wrap180_floor)
qed

section \<open>Facts about the fade tracker\<close>

lemma set_setUnion: "set (setUnion ks js) = set ks \<union> set js"
  by (auto simp: setUnion_def)

lemma distinct_setUnion: "distinct (setUnion ks js)"
  by (simp add: setUnion_def)

lemma set_alist_update: "set (AList.update k v al) \<subseteq> insert (k, v) (set al)"
  by (induction al) auto

lemma set_alist_delete: "set (AList.delete k al) \<subseteq> set al"
  by (auto simp: AList.delete_eq)

lemma alphaOf_bounds:
  assumes "alphasInUnit la"
  shows "0 \<le> alphaOf la k" and "alphaOf la k \<le> 1"
proof -
  have "0 \<le> alphaOf la k \<and> alphaOf la k \<le> 1"
  proof (cases "map_of la k")
    case None
    then show ?thesis by (simp add: alphaOf_def)
  next
    case (Some a)
    then have "(k, a) \<in> set la" by (rule map_of_SomeD)
    then have "0 \<le> a \<and> a \<le> 1"
      using assms by (auto simp: alphasInUnit_def list_all_iff)
    then show ?thesis using Some by (simp add: alphaOf_def)
  qed
  then show "0 \<le> alphaOf la k" and "alphaOf la k \<le> 1" by simp_all
qed

lemma updateAlphaKey_inUnit:
  assumes "alphasInUnit la" and "0 \<le> dt"
  shows "alphasInUnit (updateAlphaKey tv dt k la)"
proof -
  have b: "0 \<le> alphaOf la k" "alphaOf la k \<le> 1"
    using alphaOf_bounds [OF assms(1)] by simp_all
  have d: "alphasInUnit (AList.delete k la)"
    using assms(1) set_alist_delete [of k la]
    by (auto simp: alphasInUnit_def list_all_iff)
  have u: "alphasInUnit (AList.update k v la)" if "0 \<le> v" "v \<le> 1" for v
    using assms(1) set_alist_update [of k v la] that
    by (auto simp: alphasInUnit_def list_all_iff)
  have i: "0 \<le> min 1 (alphaOf la k + fadeInPerSec * dt)" "min 1 (alphaOf la k + fadeInPerSec * dt) \<le> 1"
    using b assms(2) by (simp_all add: fadeInPerSec_def)
  have "0 \<le> fadeOutPerSec * dt" using assms(2) by (simp add: fadeOutPerSec_def)
  then have o: "0 \<le> max 0 (alphaOf la k - fadeOutPerSec * dt)"
               "max 0 (alphaOf la k - fadeOutPerSec * dt) \<le> 1"
    using b by simp_all
  show ?thesis
    unfolding updateAlphaKey_def Let_def using d u i o by (simp split: if_splits)
qed

lemma fold_updateAlphaKey_inUnit:
  assumes "0 \<le> dt"
  shows "alphasInUnit la \<Longrightarrow> alphasInUnit (fold (updateAlphaKey tv dt) ks la)"
  by (induction ks arbitrary: la) (simp_all add: updateAlphaKey_inUnit assms)

lemma updateAlpha_inUnit:
  "alphasInUnit la \<Longrightarrow> 0 \<le> dt \<Longrightarrow> alphasInUnit (updateAlpha tv dt la)"
  by (simp add: updateAlpha_def fold_updateAlphaKey_inUnit)

lemma fadeFrames_inUnit_aux:
  "alphasInUnit la \<Longrightarrow> list_all (\<lambda>(tv, dt). 0 \<le> dt) fs \<Longrightarrow>
   alphasInUnit (foldl (\<lambda>la (tv, dt). updateAlpha tv dt la) la fs)"
  by (induction fs arbitrary: la) (auto simp: updateAlpha_inUnit)

lemma fadeFrames_inUnit:
  "list_all (\<lambda>(tv, dt). 0 \<le> dt) fs \<Longrightarrow> alphasInUnit (fadeFrames fs)"
  unfolding fadeFrames_def by (rule fadeFrames_inUnit_aux) (simp_all add: alphasInUnit_def)

lemma updateAlphaKey_other:
  "k' \<noteq> k \<Longrightarrow> map_of (updateAlphaKey tv dt k la) k' = map_of la k'"
  by (simp add: updateAlphaKey_def Let_def AList.update_conv' AList.delete_conv')

lemma updateAlphaKey_same:
  "map_of (updateAlphaKey tv dt k la) k =
     (if fadeNext tv dt la k \<le> 0 \<and> k \<notin> set tv then None else Some (fadeNext tv dt la k))"
  by (simp add: updateAlphaKey_def Let_def fadeNext_def fadeInPerSec_def fadeOutPerSec_def
      AList.update_conv' AList.delete_conv')

lemma fadeNext_cong: "map_of la k = map_of la' k \<Longrightarrow> fadeNext tv dt la k = fadeNext tv dt la' k"
  by (simp add: fadeNext_def alphaOf_def)

lemma fold_updateAlphaKey_map_of:
  "distinct ks \<Longrightarrow>
   map_of (fold (updateAlphaKey tv dt) ks la) k =
     (if k \<in> set ks then map_of (updateAlphaKey tv dt k la) k else map_of la k)"
proof (induction ks arbitrary: la)
  case Nil
  then show ?case by simp
next
  case (Cons j ks)
  show ?case
  proof (cases "k = j")
    case True
    then have "k \<notin> set ks" using Cons.prems by simp
    then show ?thesis using Cons True by simp
  next
    case False
    then have same: "map_of (updateAlphaKey tv dt j la) k = map_of la k"
      by (simp add: updateAlphaKey_other)
    then have "fadeNext tv dt (updateAlphaKey tv dt j la) k = fadeNext tv dt la k"
      by (rule fadeNext_cong)
    then have "map_of (updateAlphaKey tv dt k (updateAlphaKey tv dt j la)) k
             = map_of (updateAlphaKey tv dt k la) k"
      by (simp add: updateAlphaKey_same)
    then show ?thesis using Cons False same by simp
  qed
qed

lemma updateAlpha_map_of:
  "map_of (updateAlpha tv dt la) k =
     (if k \<in> fst ` set la \<union> set tv
      then (if fadeNext tv dt la k \<le> 0 \<and> k \<notin> set tv then None else Some (fadeNext tv dt la k))
      else None)"
proof -
  have "k \<notin> fst ` set la \<Longrightarrow> map_of la k = None"
    by (simp add: map_of_eq_None_iff)
  then show ?thesis
    by (simp add: updateAlpha_def fold_updateAlphaKey_map_of distinct_setUnion set_setUnion
        updateAlphaKey_same)
qed

lemma updateAlpha_alphaOf:
  "k \<in> fst ` set la \<union> set tv \<Longrightarrow> alphaOf (updateAlpha tv dt la) k = fadeNext tv dt la k"
proof -
  assume k: "k \<in> fst ` set la \<union> set tv"
  have "0 \<le> fadeNext tv dt la k" if "k \<notin> set tv"
    using that by (simp add: fadeNext_def)
  then show ?thesis using k
    by (auto simp: alphaOf_def [of "updateAlpha tv dt la"] updateAlpha_map_of)
qed

section \<open>Facts about the layout\<close>

lemma fold_invariant:
  assumes "P s" and "\<And>x s. x \<in> set xs \<Longrightarrow> P s \<Longrightarrow> P (f x s)"
  shows "P (fold f xs s)"
  using assms by (induction xs arbitrary: s) simp_all

lemma rectsOverlap_sym: "rectsOverlap a b = rectsOverlap b a"
  by (auto simp: rectsOverlap_def)

lemma noOverlaps_snoc:
  "noOverlaps (rs @ [r]) = (noOverlaps rs \<and> list_all (\<lambda>p. \<not> rectsOverlap p r) rs)"
  by (induction rs) (auto simp: rectsOverlap_sym [of r])

lemma noOverlaps_nth:
  "noOverlaps rs \<Longrightarrow> i < j \<Longrightarrow> j < length rs \<Longrightarrow> \<not> rectsOverlap (rs ! i) (rs ! j)"
proof (induction rs arbitrary: i j)
  case Nil
  then show ?case by simp
next
  case (Cons r rs)
  obtain j' where j': "j = Suc j'" using Cons.prems(2) by (cases j) simp_all
  show ?case
  proof (cases i)
    case 0
    have "rs ! j' \<in> set rs" using Cons.prems(3) j' by simp
    then show ?thesis using Cons.prems(1) 0 j' by (auto simp: list_all_iff)
  next
    case (Suc i')
    then show ?thesis using Cons j' by simp
  qed
qed

lemma searchY_sound:
  "searchY rect pl ht tried ys = Some y \<Longrightarrow> \<not> list_ex (\<lambda>p. rectsOverlap p (rect\<lparr>ry := y\<rparr>)) pl"
  by (induction ys arbitrary: tried) (auto simp: Let_def split: if_splits)

lemma searchY_clamped:
  "searchY rect pl ht tried ys = Some y \<Longrightarrow> \<exists>y0 \<in> set ys. y = max 0 (min (ht - rh rect) y0)"
  by (induction ys arbitrary: tried) (auto simp: Let_def split: if_splits)

lemma findNonOverlappingY_sound:
  "findNonOverlappingY rect pl ht ms = Some y \<Longrightarrow> list_all (\<lambda>p. \<not> rectsOverlap p (rect\<lparr>ry := y\<rparr>)) pl"
  using searchY_sound [of rect pl ht "{}" _ y]
  by (auto simp: findNonOverlappingY_def Let_def list_all_iff list_ex_iff)

lemma findNonOverlappingY_range:
  assumes "findNonOverlappingY rect pl ht ms = Some y" and "rh rect \<le> ht"
  shows "0 \<le> y" and "y + rh rect \<le> ht"
proof -
  obtain y0 where "y = max 0 (min (ht - rh rect) y0)"
    using assms(1) searchY_clamped [of rect pl ht "{}" _ y]
    by (auto simp: findNonOverlappingY_def Let_def)
  then show "0 \<le> y" and "y + rh rect \<le> ht" using assms(2) by auto
qed

lemma labelRect_fields:
  "rw (labelRect tw inp hy item) = tw item + 12"
  "rh (labelRect tw inp hy item) = 24"
  "4 \<le> rx (labelRect tw inp hy item)"
  "tw item + 16 \<le> width inp \<Longrightarrow> rx (labelRect tw inp hy item) + (tw item + 12) \<le> width inp"
  by (auto simp: labelRect_def measureLabel_def Let_def)

lemma edgeRectOf_fields:
  "rw (edgeRectOf tw inp hy item) = tw item + 12"
  "rh (edgeRectOf tw inp hy item) = 24"
  "tw item + 18 \<le> width inp \<Longrightarrow> 0 \<le> rx (edgeRectOf tw inp hy item)"
  "tw item + 18 \<le> width inp \<Longrightarrow> rx (edgeRectOf tw inp hy item) + (tw item + 12) \<le> width inp"
  by (auto simp: edgeRectOf_def measureLabel_def Let_def)

text \<open>What one pass of the loop body does to each component of the frame.\<close>

lemma renderItem_placed:
  "placed (renderItem tw inp hy la item fr) =
     (if itemOffscreen inp item then placed fr
      else case findNonOverlappingY (labelRect tw inp hy item) (placed fr) (height inp)
                  (\<lceil>height inp / (rh (labelRect tw inp hy item) + 6)\<rceil> + 2) of
             None \<Rightarrow> placed fr
           | Some y \<Rightarrow> placed fr @ [(labelRect tw inp hy item)\<lparr>ry := y\<rparr>])"
  by (simp add: renderItem_def Let_def split: option.splits)

lemma renderItem_visibleKeys:
  "visibleKeys (renderItem tw inp hy la item fr) =
     (if itemOffscreen inp item then setAdd (keyOf (city item)) (visibleKeys fr)
      else case findNonOverlappingY (labelRect tw inp hy item) (placed fr) (height inp)
                  (\<lceil>height inp / (rh (labelRect tw inp hy item) + 6)\<rceil> + 2) of
             None \<Rightarrow> visibleKeys fr
           | Some y \<Rightarrow> setAdd (keyOf (city item)) (visibleKeys fr))"
  by (simp add: renderItem_def Let_def split: option.splits)

lemma renderItem_edgeLeft:
  "edgeLeftPlaced (renderItem tw inp hy la item fr) = edgeLeftPlaced fr
   \<or> (\<exists>y. itemOffscreen inp item \<and> showOffscreenIndicators inp
          \<and> findNonOverlappingY (edgeRectOf tw inp hy item) (edgeLeftPlaced fr) (height inp)
               (\<lceil>height inp / (rh (edgeRectOf tw inp hy item) + 6)\<rceil> + 2) = Some y
          \<and> edgeLeftPlaced (renderItem tw inp hy la item fr)
              = edgeLeftPlaced fr @ [(edgeRectOf tw inp hy item)\<lparr>ry := y\<rparr>])"
  by (simp add: renderItem_def Let_def split: option.splits)

lemma renderItem_edgeRight:
  "edgeRightPlaced (renderItem tw inp hy la item fr) = edgeRightPlaced fr
   \<or> (\<exists>y. itemOffscreen inp item \<and> showOffscreenIndicators inp
          \<and> findNonOverlappingY (edgeRectOf tw inp hy item) (edgeRightPlaced fr) (height inp)
               (\<lceil>height inp / (rh (edgeRectOf tw inp hy item) + 6)\<rceil> + 2) = Some y
          \<and> edgeRightPlaced (renderItem tw inp hy la item fr)
              = edgeRightPlaced fr @ [(edgeRectOf tw inp hy item)\<lparr>ry := y\<rparr>])"
  by (simp add: renderItem_def Let_def split: option.splits)


lemma set_setAdd: "set (setAdd k ks) = insert k (set ks)"
  by (auto simp: setAdd_def)

lemma renderItem_visibleKeys_mono:
  "set (visibleKeys fr) \<subseteq> set (visibleKeys (renderItem tw inp hy la item fr))"
  by (auto simp: renderItem_visibleKeys set_setAdd split: option.splits)

lemma layoutFrame_Nil: "layoutFrame tw inp la [] fr = fr"
  by (simp add: layoutFrame_def)

lemma layoutFrame_append:
  "layoutFrame tw inp la (xs @ ys) fr = layoutFrame tw inp la ys (layoutFrame tw inp la xs fr)"
  by (simp add: layoutFrame_def)

lemma layoutFrame_snoc:
  "layoutFrame tw inp la (xs @ [x]) fr
     = renderItem tw inp (horizonOf inp) la x (layoutFrame tw inp la xs fr)"
  by (simp add: layoutFrame_def)

lemma layoutFrame_take_Suc:
  "i < length xs \<Longrightarrow>
   layoutFrame tw inp la (take (Suc i) xs) fr
     = renderItem tw inp (horizonOf inp) la (xs ! i) (layoutFrame tw inp la (take i xs) fr)"
  by (simp add: take_Suc_conv_app_nth layoutFrame_snoc)

lemma layoutFrame_invariant:
  assumes "P fr"
    and "\<And>x f. x \<in> set xs \<Longrightarrow> P f \<Longrightarrow> P (renderItem tw inp (horizonOf inp) la x f)"
  shows "P (layoutFrame tw inp la xs fr)"
  unfolding layoutFrame_def using assms by (rule fold_invariant)

lemma layoutFrame_visibleKeys_mono:
  "set (visibleKeys fr) \<subseteq> set (visibleKeys (layoutFrame tw inp la xs fr))"
proof (induction xs arbitrary: fr)
  case Nil
  then show ?case by (simp add: layoutFrame_Nil)
next
  case (Cons x xs)
  have "layoutFrame tw inp la (x # xs) fr
      = layoutFrame tw inp la xs (renderItem tw inp (horizonOf inp) la x fr)"
    by (simp add: layoutFrame_def)
  then show ?case
    using Cons [of "renderItem tw inp (horizonOf inp) la x fr"]
      renderItem_visibleKeys_mono [of fr tw inp "horizonOf inp" la x]
    by auto
qed

lemma layoutFrame_keeps_prefix_keys:
  assumes "i < length xs"
  shows "set (visibleKeys (layoutFrame tw inp la (take (Suc i) xs) fr))
           \<subseteq> set (visibleKeys (layoutFrame tw inp la xs fr))"
proof -
  have "xs = take (Suc i) xs @ drop (Suc i) xs" by simp
  then have "layoutFrame tw inp la xs fr
      = layoutFrame tw inp la (drop (Suc i) xs) (layoutFrame tw inp la (take (Suc i) xs) fr)"
    using layoutFrame_append [of tw inp la "take (Suc i) xs" "drop (Suc i) xs" fr] by simp
  then show ?thesis
    using layoutFrame_visibleKeys_mono
      [of "layoutFrame tw inp la (take (Suc i) xs) fr" tw inp la "drop (Suc i) xs"]
    by simp
qed

lemma renderItem_poolsDisjoint:
  assumes "poolsDisjoint fr"
  shows "poolsDisjoint (renderItem tw inp hy la item fr)"
proof -
  have p: "noOverlaps (placed (renderItem tw inp hy la item fr))"
    using assms findNonOverlappingY_sound
    by (auto simp: renderItem_placed poolsDisjoint_def noOverlaps_snoc split: option.splits)
  have l: "noOverlaps (edgeLeftPlaced (renderItem tw inp hy la item fr))"
    using assms findNonOverlappingY_sound renderItem_edgeLeft [of tw inp hy la item fr]
    by (auto simp: poolsDisjoint_def noOverlaps_snoc)
  have r: "noOverlaps (edgeRightPlaced (renderItem tw inp hy la item fr))"
    using assms findNonOverlappingY_sound renderItem_edgeRight [of tw inp hy la item fr]
    by (auto simp: poolsDisjoint_def noOverlaps_snoc)
  show ?thesis using p l r by (simp add: poolsDisjoint_def)
qed

lemma layoutFrame_poolsDisjoint:
  "poolsDisjoint (layoutFrame tw inp la xs emptyFrame)"
  by (rule layoutFrame_invariant)
     (simp_all add: poolsDisjoint_def emptyFrame_def renderItem_poolsDisjoint [unfolded poolsDisjoint_def])

lemma frame_render: "frame (render tw inp now st) =
    layoutFrame tw inp (labelAlpha st) (candidatesOf inp) emptyFrame"
  by (simp add: render_def Let_def)

lemma haversine_same_point: "haversineDistanceKm la lo la lo = 0"
  by (simp add: haversineDistanceKm_def toRad_def atan2_def Let_def)

lemma wrap360_zero: "wrap360 0 = 0"
  by (simp add: wrap360_floor)

lemma bearing_same_point: "initialBearingDeg la lo la lo = 0"
  by (simp add: initialBearingDeg_def toRad_def toDeg_def atan2_def Let_def wrap360_zero mult.commute)

lemma demo_candidates2:
  "candidatesOf (demoInput wd ht hdg [demoCity ''A'' 2, demoCity ''B'' 1] ind) =
     [demoCand ''A'' 2, demoCand ''B'' 1]"
  by (simp add: candidatesOf_def demoInput_def demoCity_def demoCand_def
      haversine_same_point bearing_same_point)

lemma demo_candidates1:
  "candidatesOf (demoInput wd ht hdg [demoCity ''A'' 2] ind) = [demoCand ''A'' 2]"
  by (simp add: candidatesOf_def demoInput_def demoCity_def demoCand_def
      haversine_same_point bearing_same_point)

lemma wrap180_zero: "wrap180 0 = 0"
  by (simp add: wrap180_floor)

lemma wrap180_m90: "wrap180 (- 90) = - 90"
  by (simp add: wrap180_fixed)

lemmas layout_eval =
  layoutFrame_def renderItem_def horizonOf_def estimateVfovDeg_def pitchToScreenY_def
  itemOffscreen_def itemDeltaAz_def isWithinFov_def labelRect_def edgeRectOf_def edgeSide_def
  measureLabel_def azimuthToScreenX_def maxLabelHeight_def findNonOverlappingY_def
  candidateYs_def rectsOverlap_def keyOf_def setAdd_def alphaOf_def emptyFrame_def
  demoInput_def demoCity_def demoCand_def textWidth100_def textWidth400_def freshState_def
  wrap180_zero wrap180_m90 upto_rec1 Let_def

lemma demo_frame_tight:
  "frame (render textWidth100 (demoInput 320 24 0 [demoCity ''A'' 2, demoCity ''B'' 1] False) 0 freshState)
   = \<lparr>placed = [\<lparr>rx = 104, ry = 0, rw = 112, rh = 24\<rparr>], edgeLeftPlaced = [], edgeRightPlaced = [],
       visibleKeys = [''A|US''], drawn = []\<rparr>"
  unfolding frame_render demo_candidates2 by (simp add: layout_eval)

lemma demo_frame_roomy:
  "frame (render textWidth100 (demoInput 320 60 0 [demoCity ''A'' 2, demoCity ''B'' 1] False) 0 freshState)
   = \<lparr>placed = [\<lparr>rx = 104, ry = 0, rw = 112, rh = 24\<rparr>, \<lparr>rx = 104, ry = 30, rw = 112, rh = 24\<rparr>],
       edgeLeftPlaced = [], edgeRightPlaced = [],
       visibleKeys = [''A|US'', ''B|US''], drawn = []\<rparr>"
  unfolding frame_render demo_candidates2 by (simp add: layout_eval)

lemma demo_frame_wide:
  "frame (render textWidth400 (demoInput 320 600 0 [demoCity ''A'' 2] False) 0 freshState)
   = \<lparr>placed = [\<lparr>rx = 4, ry = 270, rw = 412, rh = 24\<rparr>],
       edgeLeftPlaced = [], edgeRightPlaced = [],
       visibleKeys = [''A|US''], drawn = []\<rparr>"
  unfolding frame_render demo_candidates1 by (simp add: layout_eval)

lemma demo_frame_away:
  "frame (render textWidth100 (demoInput 320 60 90 [demoCity ''A'' 2, demoCity ''B'' 1] False) now
            \<lparr>labelAlpha = [(''A|US'', 1 / 2)], lastNow = 1000\<rparr>)
   = \<lparr>placed = [], edgeLeftPlaced = [], edgeRightPlaced = [],
       visibleKeys = [''A|US'', ''B|US''], drawn = []\<rparr>"
  unfolding frame_render demo_candidates2 by (simp add: layout_eval)

lemma demo_frame_away_shown:
  "frame (render textWidth100 (demoInput 320 60 90 [demoCity ''A'' 2, demoCity ''B'' 1] True) now
            \<lparr>labelAlpha = [(''A|US'', 1 / 2)], lastNow = 1000\<rparr>)
   = \<lparr>placed = [], edgeLeftPlaced = [\<lparr>rx = 6, ry = 18, rw = 112, rh = 24\<rparr>], edgeRightPlaced = [],
       visibleKeys = [''A|US'', ''B|US''],
       drawn = [DrawEdge SideLeft (demoCand ''A'' 2) \<lparr>rx = 6, ry = 18, rw = 112, rh = 24\<rparr> (1 / 2)]\<rparr>"
  unfolding frame_render demo_candidates2 by (simp add: layout_eval)

text \<open>The rectangles stay inside the viewport when they fit into it.\<close>

lemma renderItem_placed_inside:
  assumes "24 \<le> height inp"
    and "\<not> itemOffscreen inp item \<Longrightarrow> tw item + 16 \<le> width inp"
    and "list_all (insideViewport (width inp) (height inp)) (placed fr)"
  shows "list_all (insideViewport (width inp) (height inp)) (placed (renderItem tw inp hy la item fr))"
proof (cases "itemOffscreen inp item")
  case True
  then show ?thesis using assms(3) by (simp add: renderItem_placed)
next
  case False
  show ?thesis
  proof (cases "findNonOverlappingY (labelRect tw inp hy item) (placed fr) (height inp)
                  (\<lceil>height inp / (rh (labelRect tw inp hy item) + 6)\<rceil> + 2)")
    case None
    then show ?thesis using assms(3) False by (simp add: renderItem_placed)
  next
    case (Some y)
    have "0 \<le> y" and "y + 24 \<le> height inp"
      using findNonOverlappingY_range [OF Some] assms(1) by (simp_all add: labelRect_fields)
    moreover have "rx (labelRect tw inp hy item) + (tw item + 12) \<le> width inp"
      using assms(2) False by (simp add: labelRect_fields)
    moreover have "0 \<le> rx (labelRect tw inp hy item)"
      using labelRect_fields(3) [of tw inp hy item] by simp
    ultimately have "insideViewport (width inp) (height inp) ((labelRect tw inp hy item)\<lparr>ry := y\<rparr>)"
      by (simp add: insideViewport_def labelRect_fields)
    then show ?thesis using assms(3) False Some by (simp add: renderItem_placed)
  qed
qed

lemma edge_slot_inside:
  assumes "24 \<le> height inp" and "tw item + 18 \<le> width inp"
    and "findNonOverlappingY (edgeRectOf tw inp hy item) pl (height inp) ms = Some y"
  shows "insideViewport (width inp) (height inp) ((edgeRectOf tw inp hy item)\<lparr>ry := y\<rparr>)"
proof -
  have "0 \<le> y" and "y + 24 \<le> height inp"
    using findNonOverlappingY_range [OF assms(3)] assms(1) by (simp_all add: edgeRectOf_fields)
  then show ?thesis
    using assms(2) edgeRectOf_fields(3,4) [of tw item inp hy]
    by (simp add: insideViewport_def edgeRectOf_fields)
qed

lemma renderItem_edges_inside:
  assumes "24 \<le> height inp"
    and "itemOffscreen inp item \<Longrightarrow> tw item + 18 \<le> width inp"
    and "list_all (insideViewport (width inp) (height inp)) (edgeLeftPlaced fr)
         \<and> list_all (insideViewport (width inp) (height inp)) (edgeRightPlaced fr)"
  shows "list_all (insideViewport (width inp) (height inp)) (edgeLeftPlaced (renderItem tw inp hy la item fr))
         \<and> list_all (insideViewport (width inp) (height inp)) (edgeRightPlaced (renderItem tw inp hy la item fr))"
  using assms renderItem_edgeLeft [of tw inp hy la item fr]
    renderItem_edgeRight [of tw inp hy la item fr] edge_slot_inside [of inp tw item hy]
  by auto

text \<open>Which candidates reach the visible-target set.\<close>

lemma layoutFrame_step_keys:
  assumes "i < length xs"
  shows "visibleKeys (layoutFrame tw inp la (take (Suc i) xs) fr) =
     (if itemOffscreen inp (xs ! i)
      then setAdd (keyOf (city (xs ! i))) (visibleKeys (layoutFrame tw inp la (take i xs) fr))
      else case findNonOverlappingY (labelRect tw inp (horizonOf inp) (xs ! i))
                  (placed (layoutFrame tw inp la (take i xs) fr)) (height inp)
                  (\<lceil>height inp / (rh (labelRect tw inp (horizonOf inp) (xs ! i)) + 6)\<rceil> + 2) of
             None \<Rightarrow> visibleKeys (layoutFrame tw inp la (take i xs) fr)
           | Some y \<Rightarrow> setAdd (keyOf (city (xs ! i))) (visibleKeys (layoutFrame tw inp la (take i xs) fr)))"
  using assms by (simp add: layoutFrame_take_Suc renderItem_visibleKeys)

lemma offscreen_key_visible:
  assumes "item \<in> set xs" and "itemOffscreen inp item"
  shows "keyOf (city item) \<in> set (visibleKeys (layoutFrame tw inp la xs fr))"
proof -
  obtain i where i: "i < length xs" "xs ! i = item"
    using assms(1) by (auto simp: in_set_conv_nth)
  have "keyOf (city item) \<in> set (visibleKeys (layoutFrame tw inp la (take (Suc i) xs) fr))"
    using i assms(2) by (simp add: layoutFrame_step_keys set_setAdd)
  then show ?thesis using layoutFrame_keeps_prefix_keys [OF i(1), of tw inp la fr] by auto
qed

lemma demo_horizon: "horizonOf (demoInput 320 60 hdg cs ind) = 30"
  by (simp add: horizonOf_def estimateVfovDeg_def pitchToScreenY_def demoInput_def Let_def)

lemma demo_labelRect:
  "labelRect textWidth100 (demoInput 320 60 0 cs ind) 30 (demoCand nm pop)
     = \<lparr>rx = 104, ry = 0, rw = 112, rh = 24\<rparr>"
  by (simp add: labelRect_def measureLabel_def itemDeltaAz_def azimuthToScreenX_def
      maxLabelHeight_def textWidth100_def demoInput_def demoCand_def wrap180_zero Let_def)

lemma demo_find_second:
  "findNonOverlappingY \<lparr>rx = 104, ry = 0, rw = 112, rh = 24\<rparr>
     [\<lparr>rx = 104, ry = 0, rw = 112, rh = 24\<rparr>] 60 4 = Some 30"
  by (simp add: findNonOverlappingY_def candidateYs_def rectsOverlap_def upto_rec1 Let_def)

lemma demo_before_second:
  "placed (layoutFrame textWidth100 (demoInput 320 60 0 cs ind) [] [demoCand ''A'' 2] emptyFrame)
     = [\<lparr>rx = 104, ry = 0, rw = 112, rh = 24\<rparr>]"
  by (simp add: layout_eval)

lemma demo_slot_roomy:
  "slotOffered textWidth100 (demoInput 320 60 0 [demoCity ''A'' 2, demoCity ''B'' 1] False) [] 1 = Some 30"
proof -
  have h: "height (demoInput 320 60 0 [demoCity ''A'' 2, demoCity ''B'' 1] False) = 60"
    by (simp add: demoInput_def)
  show ?thesis
    unfolding slotOffered_def demo_candidates2 Let_def demo_horizon
    by (simp add: demo_labelRect demo_before_second demo_find_second h)
qed

lemma demo_onscreen: "\<not> itemOffscreen (demoInput wd ht 0 cs ind) (demoCand nm pop)"
  by (simp add: layout_eval)

lemma demo_offscreen: "itemOffscreen (demoInput wd ht 90 cs ind) (demoCand nm pop)"
  by (simp add: layout_eval)

text \<open>The frame when off-screen indicators are switched off.\<close>

lemma renderItem_no_edges:
  assumes "\<not> showOffscreenIndicators inp"
  shows "edgeLeftPlaced (renderItem tw inp hy la item fr) = edgeLeftPlaced fr"
    and "edgeRightPlaced (renderItem tw inp hy la item fr) = edgeRightPlaced fr"
  using assms renderItem_edgeLeft [of tw inp hy la item fr]
    renderItem_edgeRight [of tw inp hy la item fr]
  by auto

lemma renderItem_drawn_hidden:
  assumes "\<not> showOffscreenIndicators inp"
  shows "drawn (renderItem tw inp hy la item fr) = drawn fr
       \<or> (\<exists>r a. \<not> itemOffscreen inp item
             \<and> drawn (renderItem tw inp hy la item fr) = drawn fr @ [DrawLabel item r a])"
  using assms by (simp add: renderItem_def Let_def split: option.splits)

lemma renderItem_hidden_invariant:
  assumes "\<not> showOffscreenIndicators inp"
    and "edgeLeftPlaced fr = [] \<and> edgeRightPlaced fr = [] \<and> list_all (onscreenLabel inp) (drawn fr)"
  shows "edgeLeftPlaced (renderItem tw inp hy la item fr) = []
       \<and> edgeRightPlaced (renderItem tw inp hy la item fr) = []
       \<and> list_all (onscreenLabel inp) (drawn (renderItem tw inp hy la item fr))"
  using assms renderItem_drawn_hidden [OF assms(1), of tw hy la item fr]
  by (auto simp: renderItem_no_edges onscreenLabel_def)

lemma flag_irrelevant:
  "candidatesOf (inp\<lparr>showOffscreenIndicators := b\<rparr>) = candidatesOf inp"
  "horizonOf (inp\<lparr>showOffscreenIndicators := b\<rparr>) = horizonOf inp"
  "itemOffscreen (inp\<lparr>showOffscreenIndicators := b\<rparr>) item = itemOffscreen inp item"
  "labelRect tw (inp\<lparr>showOffscreenIndicators := b\<rparr>) hy item = labelRect tw inp hy item"
  by (simp_all add: candidatesOf_def horizonOf_def itemOffscreen_def itemDeltaAz_def labelRect_def)

lemma renderItem_core_flag:
  assumes "placed fa = placed fb" and "visibleKeys fa = visibleKeys fb"
  shows "placed (renderItem tw (inp\<lparr>showOffscreenIndicators := b\<rparr>) hy la item fa)
           = placed (renderItem tw inp hy la item fb)
       \<and> visibleKeys (renderItem tw (inp\<lparr>showOffscreenIndicators := b\<rparr>) hy la item fa)
           = visibleKeys (renderItem tw inp hy la item fb)"
  using assms by (auto simp: renderItem_placed renderItem_visibleKeys flag_irrelevant split: option.splits)

lemma layoutFrame_core_flag:
  "placed fa = placed fb \<Longrightarrow> visibleKeys fa = visibleKeys fb \<Longrightarrow>
   placed (layoutFrame tw (inp\<lparr>showOffscreenIndicators := b\<rparr>) la xs fa)
     = placed (layoutFrame tw inp la xs fb)
   \<and> visibleKeys (layoutFrame tw (inp\<lparr>showOffscreenIndicators := b\<rparr>) la xs fa)
     = visibleKeys (layoutFrame tw inp la xs fb)"
proof (induction xs arbitrary: fa fb)
  case Nil
  then show ?case by (simp add: layoutFrame_Nil)
next
  case (Cons x xs)
  have step: "layoutFrame tw i la (x # xs) f = layoutFrame tw i la xs (renderItem tw i (horizonOf i) la x f)"
    for i f by (simp add: layoutFrame_def)
  show ?case
    unfolding step flag_irrelevant
    by (intro Cons.IH; simp add: renderItem_core_flag [OF Cons.prems])
qed

lemma demo_state_away:
  "labelAlpha (state (render textWidth100 (demoInput 320 60 90 [demoCity ''A'' 2, demoCity ''B'' 1] False)
      1050 \<lparr>labelAlpha = [(''A|US'', 1 / 2)], lastNow = 1000\<rparr>))
     = [(''A|US'', 7 / 10), (''B|US'', 1 / 5)]"
proof -
  have "updateAlpha [''A|US'', ''B|US''] (1 / 20) [(''A|US'', 1 / 2)]
      = [(''A|US'', 7 / 10), (''B|US'', 1 / 5)]"
    by (simp add: updateAlpha_def setUnion_def updateAlphaKey_def alphaOf_def
        fadeInPerSec_def fadeOutPerSec_def Let_def)
  then show ?thesis
    using demo_frame_away [of 1050] by (simp add: render_def frameDt_def Let_def)
qed

lemma demo_find_none:
  "findNonOverlappingY \<lparr>rx = 104, ry = - 24, rw = 112, rh = 24\<rparr>
     [\<lparr>rx = 104, ry = 0, rw = 112, rh = 24\<rparr>] 24 3 = None"
  by (simp add: findNonOverlappingY_def candidateYs_def rectsOverlap_def upto_rec1 Let_def)

lemma demo_slot_tight:
  "slotOffered textWidth100 (demoInput 320 24 0 [demoCity ''A'' 2, demoCity ''B'' 1] False) [] 1 = None"
proof -
  have h: "height (demoInput 320 24 0 [demoCity ''A'' 2, demoCity ''B'' 1] False) = 24"
    by (simp add: demoInput_def)
  have hz: "horizonOf (demoInput 320 24 0 [demoCity ''A'' 2, demoCity ''B'' 1] False) = 12"
    by (simp add: horizonOf_def estimateVfovDeg_def pitchToScreenY_def demoInput_def Let_def)
  have r: "labelRect textWidth100 (demoInput 320 24 0 [demoCity ''A'' 2, demoCity ''B'' 1] False) 12
        (demoCand ''B'' 1) = \<lparr>rx = 104, ry = - 24, rw = 112, rh = 24\<rparr>"
    by (simp add: labelRect_def measureLabel_def itemDeltaAz_def azimuthToScreenX_def
        maxLabelHeight_def textWidth100_def demoInput_def demoCand_def wrap180_zero Let_def)
  have b: "placed (layoutFrame textWidth100 (demoInput 320 24 0 [demoCity ''A'' 2, demoCity ''B'' 1] False)
        [] [demoCand ''A'' 2] emptyFrame) = [\<lparr>rx = 104, ry = 0, rw = 112, rh = 24\<rparr>]"
    by (simp add: layout_eval)
  show ?thesis
    unfolding slotOffered_def demo_candidates2 Let_def hz
    by (simp add: r b h demo_find_none)
qed

lemma demo_frame_drawn:
  "frame (render textWidth100 (demoInput 320 60 0 [demoCity ''A'' 2] False) now
            \<lparr>labelAlpha = [(''A|US'', 1 / 2)], lastNow = 1000\<rparr>)
   = \<lparr>placed = [\<lparr>rx = 104, ry = 0, rw = 112, rh = 24\<rparr>], edgeLeftPlaced = [], edgeRightPlaced = [],
       visibleKeys = [''A|US''],
       drawn = [DrawLabel (demoCand ''A'' 2) \<lparr>rx = 104, ry = 0, rw = 112, rh = 24\<rparr> (1 / 2)]\<rparr>"
  unfolding frame_render demo_candidates1 by (simp add: layout_eval)

section \<open>Facts about the engine\<close>

















section \<open>Claims about the pure helpers\<close>

text \<open>
  Claim C6 (as amended). \<open>wrap180\<close> returns a value in the half-open interval
  \<open>[-180, 180)\<close>: at least -180 and strictly below 180, for every input angle.
\<close>

theorem wrap180_range_closed_open: "- 180 \<le> wrap180 deg \<and> wrap180 deg < 180"
  by (simp add: wrap180_range)

text \<open>
  Claim C6 as stated asks for \<open>(-180, 180]\<close>. At 180 degrees the code returns -180, the
  excluded end point.
\<close>

theorem wrap180_at_180_counterexample: "wrap180 180 = - 180 \<and> \<not> (- 180 < wrap180 180)"
  by (simp add: wrap180_floor)

text \<open>
  Claim C5. The claim (and the comment in the source, "Map -hfov/2..+hfov/2 to 0..width")
  puts the edges of the field of view on the edges of the screen. The code divides the
  azimuth by the full field of view, so at plus and minus half the field of view it
  returns three quarters and one quarter of the width: with a 60 degree field of view on
  an 800 pixel wide screen, 30 degrees lands on 600 and -30 degrees on 200.
\<close>

theorem azimuthToScreenX_at_half_fov:
  "azimuthToScreenX 30 60 800 = 600 \<and> azimuthToScreenX (- 30) 60 800 = 200
   \<and> azimuthToScreenX 0 60 800 = 400"
  by (simp add: azimuthToScreenX_def Let_def)




section \<open>Claims about the fade tracker\<close>

text \<open>
  Claim C3. After \<open>updateAlpha\<close>, every key of the tracker or of the target set has alpha
  \<open>min 1 (alpha + 4 dt)\<close> if it is targeted and \<open>max 0 (alpha - 3 dt)\<close> otherwise (a key
  the update removed reads as 0). Over any run of frames with non-negative time steps,
  starting from the empty tracker, every stored alpha lies in \<open>[0, 1]\<close>. And for one and
  the same positive \<open>dt\<close>, a targeted key that is not clamped gains more than an
  untargeted key that is not clamped loses.
\<close>

theorem updateAlpha_fades:
  "(\<forall>k \<in> fst ` set la \<union> set tv.
      alphaOf (updateAlpha tv dt la) k =
        (if k \<in> set tv then min 1 (alphaOf la k + 4 * dt) else max 0 (alphaOf la k - 3 * dt)))
   \<and> (list_all (\<lambda>(tv, dt). 0 \<le> dt) fs \<longrightarrow>
        list_all (\<lambda>(k, a). 0 \<le> a \<and> a \<le> 1) (fadeFrames fs))
   \<and> (\<forall>k \<in> set tv. \<forall>j \<in> fst ` set la - set tv.
        0 < dt \<and> alphaOf la k + 4 * dt \<le> 1 \<and> 3 * dt \<le> alphaOf la j \<longrightarrow>
        alphaOf la j - alphaOf (updateAlpha tv dt la) j
          < alphaOf (updateAlpha tv dt la) k - alphaOf la k)"
proof (intro conjI)
  show "\<forall>k \<in> fst ` set la \<union> set tv.
      alphaOf (updateAlpha tv dt la) k =
        (if k \<in> set tv then min 1 (alphaOf la k + 4 * dt) else max 0 (alphaOf la k - 3 * dt))"
    using updateAlpha_alphaOf [of _ la tv dt] by (simp add: fadeNext_def)
  show "list_all (\<lambda>(tv, dt). 0 \<le> dt) fs \<longrightarrow>
        list_all (\<lambda>(k, a). 0 \<le> a \<and> a \<le> 1) (fadeFrames fs)"
    using fadeFrames_inUnit [of fs] by (simp add: alphasInUnit_def)
  show "\<forall>k \<in> set tv. \<forall>j \<in> fst ` set la - set tv.
        0 < dt \<and> alphaOf la k + 4 * dt \<le> 1 \<and> 3 * dt \<le> alphaOf la j \<longrightarrow>
        alphaOf la j - alphaOf (updateAlpha tv dt la) j
          < alphaOf (updateAlpha tv dt la) k - alphaOf la k"
  proof (intro ballI impI)
    fix k j
    assume k: "k \<in> set tv" and j: "j \<in> fst ` set la - set tv"
      and h: "0 < dt \<and> alphaOf la k + 4 * dt \<le> 1 \<and> 3 * dt \<le> alphaOf la j"
    have "alphaOf (updateAlpha tv dt la) k = alphaOf la k + 4 * dt"
      using k h updateAlpha_alphaOf [of k la tv dt] by (simp add: fadeNext_def)
    moreover have "alphaOf (updateAlpha tv dt la) j = alphaOf la j - 3 * dt"
      using j h updateAlpha_alphaOf [of j la tv dt] by (simp add: fadeNext_def)
    ultimately show "alphaOf la j - alphaOf (updateAlpha tv dt la) j
          < alphaOf (updateAlpha tv dt la) k - alphaOf la k"
      using h by simp
  qed
qed

text \<open>
  Claim C3 at a concrete update: two keys at alpha 1/2, the first one targeted, a step of
  50 ms (the first rises to 7/10, the second falls to 7/20, so the first moved further);
  and a run of three frames.
\<close>

theorem updateAlpha_fades_witness:
  "alphaOf (updateAlpha [''a''] (1 / 20) [(''a'', 1 / 2), (''b'', 1 / 2)]) ''a'' = 7 / 10
   \<and> alphaOf (updateAlpha [''a''] (1 / 20) [(''a'', 1 / 2), (''b'', 1 / 2)]) ''b'' = 7 / 20
   \<and> list_all (\<lambda>(k, a). 0 \<le> a \<and> a \<le> 1)
        (fadeFrames [([''a''], 1 / 20), ([], 1 / 10), ([''b''], 0)])
   \<and> alphaOf [(''a'', 1 / 2), (''b'', 1 / 2)] ''b''
        - alphaOf (updateAlpha [''a''] (1 / 20) [(''a'', 1 / 2), (''b'', 1 / 2)]) ''b''
      < alphaOf (updateAlpha [''a''] (1 / 20) [(''a'', 1 / 2), (''b'', 1 / 2)]) ''a''
        - alphaOf [(''a'', 1 / 2), (''b'', 1 / 2)] ''a''"
proof -
  note t = updateAlpha_fades [of "[(''a'', 1 / 2), (''b'', 1 / 2)]" "[''a'']" "1 / 20"
      "[([''a''], 1 / 20), ([], 1 / 10), ([''b''], 0)]"]
  have a: "alphaOf [(''a'', 1 / 2), (''b'', 1 / 2)] ''a'' = 1 / 2"
          "alphaOf [(''a'', 1 / 2), (''b'', 1 / 2)] ''b'' = 1 / 2"
    by (simp_all add: alphaOf_def)
  have 1: "alphaOf (updateAlpha [''a''] (1 / 20) [(''a'', 1 / 2), (''b'', 1 / 2)]) ''a'' = 7 / 10"
    using t [THEN conjunct1, rule_format, of "''a''"] by (simp add: a)
  have 2: "alphaOf (updateAlpha [''a''] (1 / 20) [(''a'', 1 / 2), (''b'', 1 / 2)]) ''b'' = 7 / 20"
    using t [THEN conjunct1, rule_format, of "''b''"] by (simp add: a)
  have 3: "list_all (\<lambda>(k, a). 0 \<le> a \<and> a \<le> 1)
        (fadeFrames [([''a''], 1 / 20), ([], 1 / 10), ([''b''], 0)])"
    using t [THEN conjunct2, THEN conjunct1] by simp
  have 4: "alphaOf [(''a'', 1 / 2), (''b'', 1 / 2)] ''b''
        - alphaOf (updateAlpha [''a''] (1 / 20) [(''a'', 1 / 2), (''b'', 1 / 2)]) ''b''
      < alphaOf (updateAlpha [''a''] (1 / 20) [(''a'', 1 / 2), (''b'', 1 / 2)]) ''a''
        - alphaOf [(''a'', 1 / 2), (''b'', 1 / 2)] ''a''"
    using t [THEN conjunct2, THEN conjunct2, rule_format, of "''a''" "''b''"] by (simp add: a)
  show ?thesis using 1 2 3 4 by blast
qed

section \<open>Claims about the layout\<close>

text \<open>
  Claim C4. In the frame a call of \<open>render\<close> lays out, no two rectangles of one pool
  overlap, for each of the three pools (on-screen labels, left lane, right lane), each
  kept and searched on its own; and a slot \<open>findNonOverlappingY\<close> returns overlaps none
  of the rectangles it was given.
\<close>

theorem render_pools_never_overlap:
  "(\<forall>pool \<in> {placed (frame (render tw inp now st)),
               edgeLeftPlaced (frame (render tw inp now st)),
               edgeRightPlaced (frame (render tw inp now st))}.
      \<forall>i j. i < j \<and> j < length pool \<longrightarrow> \<not> rectsOverlap (pool ! i) (pool ! j))
   \<and> (\<forall>y. findNonOverlappingY rect pl ht ms = Some y \<longrightarrow>
          (\<forall>p \<in> set pl. \<not> rectsOverlap p (rect\<lparr>ry := y\<rparr>)))"
proof -
  have "poolsDisjoint (frame (render tw inp now st))"
    by (simp add: frame_render layoutFrame_poolsDisjoint)
  then have "\<forall>pool \<in> {placed (frame (render tw inp now st)),
               edgeLeftPlaced (frame (render tw inp now st)),
               edgeRightPlaced (frame (render tw inp now st))}.
      \<forall>i j. i < j \<and> j < length pool \<longrightarrow> \<not> rectsOverlap (pool ! i) (pool ! j)"
    using noOverlaps_nth by (auto simp: poolsDisjoint_def)
  moreover have "\<forall>y. findNonOverlappingY rect pl ht ms = Some y \<longrightarrow>
          (\<forall>p \<in> set pl. \<not> rectsOverlap p (rect\<lparr>ry := y\<rparr>))"
    using findNonOverlappingY_sound [of rect pl ht ms] by (auto simp: list_all_iff)
  ultimately show ?thesis by blast
qed

text \<open>
  Claim C4 on a frame with two labels at the same azimuth (320 by 60 pixels): the second
  label is moved one row down, and the two rectangles do not overlap; and on the search
  for the second label, which returns y = 30.
\<close>

theorem render_pools_never_overlap_witness:
  "\<not> rectsOverlap \<lparr>rx = 104, ry = 0, rw = 112, rh = 24\<rparr> \<lparr>rx = 104, ry = 30, rw = 112, rh = 24\<rparr>
   \<and> placed (frame (render textWidth100
        (demoInput 320 60 0 [demoCity ''A'' 2, demoCity ''B'' 1] False) 0 freshState))
       = [\<lparr>rx = 104, ry = 0, rw = 112, rh = 24\<rparr>, \<lparr>rx = 104, ry = 30, rw = 112, rh = 24\<rparr>]
   \<and> findNonOverlappingY \<lparr>rx = 104, ry = 0, rw = 112, rh = 24\<rparr>
        [\<lparr>rx = 104, ry = 0, rw = 112, rh = 24\<rparr>] 60 4 = Some 30
   \<and> \<not> rectsOverlap \<lparr>rx = 104, ry = 0, rw = 112, rh = 24\<rparr>
          (\<lparr>rx = 104, ry = 0, rw = 112, rh = 24\<rparr>\<lparr>ry := 30\<rparr>)"
proof -
  note t = render_pools_never_overlap [of textWidth100
      "demoInput 320 60 0 [demoCity ''A'' 2, demoCity ''B'' 1] False" 0 freshState
      "\<lparr>rx = 104, ry = 0, rw = 112, rh = 24\<rparr>" "[\<lparr>rx = 104, ry = 0, rw = 112, rh = 24\<rparr>]" 60 4]
  have 1: "\<not> rectsOverlap \<lparr>rx = 104, ry = 0, rw = 112, rh = 24\<rparr> \<lparr>rx = 104, ry = 30, rw = 112, rh = 24\<rparr>"
    using t [THEN conjunct1, rule_format, of
        "placed (frame (render textWidth100
          (demoInput 320 60 0 [demoCity ''A'' 2, demoCity ''B'' 1] False) 0 freshState))" 0 1]
    by (simp add: demo_frame_roomy)
  have 2: "\<not> rectsOverlap \<lparr>rx = 104, ry = 0, rw = 112, rh = 24\<rparr>
          (\<lparr>rx = 104, ry = 0, rw = 112, rh = 24\<rparr>\<lparr>ry := 30\<rparr>)"
    using t [THEN conjunct2, rule_format, OF demo_find_second, of "\<lparr>rx = 104, ry = 0, rw = 112, rh = 24\<rparr>"]
    by simp
  show ?thesis using 1 2 by (simp add: demo_frame_roomy demo_find_second)
qed

text \<open>
  Claim C8 (as amended). In a viewport at least 24 pixels high, every on-screen label
  rectangle lies inside the viewport provided each on-screen label's padded width plus
  the 4 pixel margin fits into the width, and every edge-indicator rectangle lies inside
  the viewport provided each off-screen label's padded width plus the 6 pixel margin fits
  into the width. (The padded width is the measured text width plus 12.)
\<close>

theorem render_rects_inside_viewport:
  assumes "24 \<le> height inp"
  shows "((\<forall>item \<in> set (candidatesOf inp). \<not> itemOffscreen inp item \<longrightarrow> tw item + 12 + 4 \<le> width inp)
           \<longrightarrow> (\<forall>r \<in> set (placed (frame (render tw inp now st))).
                  0 \<le> rx r \<and> rx r + rw r \<le> width inp \<and> 0 \<le> ry r \<and> ry r + rh r \<le> height inp))
       \<and> ((\<forall>item \<in> set (candidatesOf inp). itemOffscreen inp item \<longrightarrow> tw item + 12 + 6 \<le> width inp)
           \<longrightarrow> (\<forall>r \<in> set (edgeLeftPlaced (frame (render tw inp now st)))
                       \<union> set (edgeRightPlaced (frame (render tw inp now st))).
                  0 \<le> rx r \<and> rx r + rw r \<le> width inp \<and> 0 \<le> ry r \<and> ry r + rh r \<le> height inp))"
proof (intro conjI impI)
  assume fit: "\<forall>item \<in> set (candidatesOf inp). \<not> itemOffscreen inp item \<longrightarrow> tw item + 12 + 4 \<le> width inp"
  have "list_all (insideViewport (width inp) (height inp))
          (placed (layoutFrame tw inp (labelAlpha st) (candidatesOf inp) emptyFrame))"
  proof (rule layoutFrame_invariant)
    show "list_all (insideViewport (width inp) (height inp)) (placed emptyFrame)"
      by (simp add: emptyFrame_def)
  next
    fix x and f :: Frame
    assume "x \<in> set (candidatesOf inp)"
      and "list_all (insideViewport (width inp) (height inp)) (placed f)"
    then show "list_all (insideViewport (width inp) (height inp))
                 (placed (renderItem tw inp (horizonOf inp) (labelAlpha st) x f))"
      using fit assms by (intro renderItem_placed_inside) auto
  qed
  then show "\<forall>r \<in> set (placed (frame (render tw inp now st))).
      0 \<le> rx r \<and> rx r + rw r \<le> width inp \<and> 0 \<le> ry r \<and> ry r + rh r \<le> height inp"
    by (simp add: frame_render list_all_iff insideViewport_def)
next
  assume fit: "\<forall>item \<in> set (candidatesOf inp). itemOffscreen inp item \<longrightarrow> tw item + 12 + 6 \<le> width inp"
  have "list_all (insideViewport (width inp) (height inp))
          (edgeLeftPlaced (layoutFrame tw inp (labelAlpha st) (candidatesOf inp) emptyFrame))
      \<and> list_all (insideViewport (width inp) (height inp))
          (edgeRightPlaced (layoutFrame tw inp (labelAlpha st) (candidatesOf inp) emptyFrame))"
  proof (rule layoutFrame_invariant)
    show "list_all (insideViewport (width inp) (height inp)) (edgeLeftPlaced emptyFrame)
        \<and> list_all (insideViewport (width inp) (height inp)) (edgeRightPlaced emptyFrame)"
      by (simp add: emptyFrame_def)
  next
    fix x and f :: Frame
    assume "x \<in> set (candidatesOf inp)"
      and "list_all (insideViewport (width inp) (height inp)) (edgeLeftPlaced f)
         \<and> list_all (insideViewport (width inp) (height inp)) (edgeRightPlaced f)"
    then show "list_all (insideViewport (width inp) (height inp))
                 (edgeLeftPlaced (renderItem tw inp (horizonOf inp) (labelAlpha st) x f))
             \<and> list_all (insideViewport (width inp) (height inp))
                 (edgeRightPlaced (renderItem tw inp (horizonOf inp) (labelAlpha st) x f))"
      using fit assms by (intro renderItem_edges_inside) auto
  qed
  then show "\<forall>r \<in> set (edgeLeftPlaced (frame (render tw inp now st)))
                       \<union> set (edgeRightPlaced (frame (render tw inp now st))).
      0 \<le> rx r \<and> rx r + rw r \<le> width inp \<and> 0 \<le> ry r \<and> ry r + rh r \<le> height inp"
    by (auto simp: frame_render list_all_iff insideViewport_def)
qed

text \<open>
  Claim C8, the amended statement on two frames of 320 by 60 pixels: two stacked labels,
  and one edge indicator in the left lane.
\<close>

theorem render_rects_inside_viewport_witness:
  "list_all (insideViewport 320 60)
     (placed (frame (render textWidth100
        (demoInput 320 60 0 [demoCity ''A'' 2, demoCity ''B'' 1] False) 0 freshState)))
   \<and> list_all (insideViewport 320 60)
     (edgeLeftPlaced (frame (render textWidth100
        (demoInput 320 60 90 [demoCity ''A'' 2, demoCity ''B'' 1] True) 1050
        \<lparr>labelAlpha = [(''A|US'', 1 / 2)], lastNow = 1000\<rparr>)))
   \<and> edgeLeftPlaced (frame (render textWidth100
        (demoInput 320 60 90 [demoCity ''A'' 2, demoCity ''B'' 1] True) 1050
        \<lparr>labelAlpha = [(''A|US'', 1 / 2)], lastNow = 1000\<rparr>))
       = [\<lparr>rx = 6, ry = 18, rw = 112, rh = 24\<rparr>]"
proof -
  have h: "24 \<le> height (demoInput 320 60 hdg [demoCity ''A'' 2, demoCity ''B'' 1] ind)" for hdg ind
    by (simp add: demoInput_def)
  have w: "width (demoInput 320 60 hdg [demoCity ''A'' 2, demoCity ''B'' 1] ind) = 320"
          "height (demoInput 320 60 hdg [demoCity ''A'' 2, demoCity ''B'' 1] ind) = 60" for hdg ind
    by (simp_all add: demoInput_def)
  have a: "list_all (insideViewport 320 60)
     (placed (frame (render textWidth100
        (demoInput 320 60 0 [demoCity ''A'' 2, demoCity ''B'' 1] False) 0 freshState)))"
    using render_rects_inside_viewport [OF h, of 0 False textWidth100 0 freshState, THEN conjunct1]
    by (simp add: demo_candidates2 textWidth100_def w list_all_iff insideViewport_def)
  have b: "list_all (insideViewport 320 60)
     (edgeLeftPlaced (frame (render textWidth100
        (demoInput 320 60 90 [demoCity ''A'' 2, demoCity ''B'' 1] True) 1050
        \<lparr>labelAlpha = [(''A|US'', 1 / 2)], lastNow = 1000\<rparr>)))"
    using render_rects_inside_viewport [OF h, of 90 True textWidth100 1050
        "\<lparr>labelAlpha = [(''A|US'', 1 / 2)], lastNow = 1000\<rparr>", THEN conjunct2]
    by (simp add: demo_candidates2 textWidth100_def w list_all_iff insideViewport_def)
  show ?thesis using a b by (simp add: demo_frame_away_shown)
qed

text \<open>
  Claim C8 as stated holds for every label text width and viewport size. A label whose
  text measures 400 pixels is placed at x = 4 with width 412 in a viewport 320 pixels
  wide: its right edge is outside.
\<close>

theorem render_rects_inside_viewport_counterexample:
  "placed (frame (render textWidth400 (demoInput 320 600 0 [demoCity ''A'' 2] False) 0 freshState))
     = [\<lparr>rx = 4, ry = 270, rw = 412, rh = 24\<rparr>]
   \<and> \<not> (rx \<lparr>rx = 4, ry = 270, rw = 412, rh = 24\<rparr> + rw \<lparr>rx = 4, ry = 270, rw = 412, rh = 24\<rparr>
          \<le> width (demoInput 320 600 0 [demoCity ''A'' 2] False))"
  by (simp add: demo_frame_wide) (simp add: demoInput_def)

text \<open>
  Claim C1 (as amended). Every candidate that passed the distance filter and is outside
  the field of view has its key in the frame's visible-target set, and so has every
  candidate inside the field of view for which the vertical search returns a slot. A
  candidate inside the field of view for which the search returns no slot is skipped
  before its key is added: the set is the same after it as before it. The set of the
  frame is the one handed to \<open>updateAlpha\<close>.
\<close>

theorem visible_keys_of_frame:
  "(\<forall>i < length (candidatesOf inp).
      (itemOffscreen inp (candidatesOf inp ! i) \<longrightarrow>
         keyOf (city (candidatesOf inp ! i)) \<in> set (visibleKeys (frame (render tw inp now st))))
    \<and> (\<not> itemOffscreen inp (candidatesOf inp ! i) \<longrightarrow>
         (case slotOffered tw inp (labelAlpha st) i of
            Some y \<Rightarrow> keyOf (city (candidatesOf inp ! i)) \<in> set (visibleKeys (frame (render tw inp now st)))
          | None \<Rightarrow>
              visibleKeys (layoutFrame tw inp (labelAlpha st) (take (Suc i) (candidatesOf inp)) emptyFrame)
                = visibleKeys (layoutFrame tw inp (labelAlpha st) (take i (candidatesOf inp)) emptyFrame))))
   \<and> labelAlpha (state (render tw inp now st))
       = updateAlpha (visibleKeys (frame (render tw inp now st))) (frameDt now st) (labelAlpha st)"
proof (intro conjI allI impI)
  fix i
  assume i: "i < length (candidatesOf inp)"
  assume "itemOffscreen inp (candidatesOf inp ! i)"
  then show "keyOf (city (candidatesOf inp ! i)) \<in> set (visibleKeys (frame (render tw inp now st)))"
    using i by (simp add: frame_render offscreen_key_visible)
next
  fix i
  assume i: "i < length (candidatesOf inp)"
  assume on: "\<not> itemOffscreen inp (candidatesOf inp ! i)"
  show "case slotOffered tw inp (labelAlpha st) i of
            Some y \<Rightarrow> keyOf (city (candidatesOf inp ! i)) \<in> set (visibleKeys (frame (render tw inp now st)))
          | None \<Rightarrow>
              visibleKeys (layoutFrame tw inp (labelAlpha st) (take (Suc i) (candidatesOf inp)) emptyFrame)
                = visibleKeys (layoutFrame tw inp (labelAlpha st) (take i (candidatesOf inp)) emptyFrame)"
  proof (cases "slotOffered tw inp (labelAlpha st) i")
    case None
    then show ?thesis
      using i on by (simp add: layoutFrame_step_keys slotOffered_def Let_def)
  next
    case (Some y)
    then have "keyOf (city (candidatesOf inp ! i))
        \<in> set (visibleKeys (layoutFrame tw inp (labelAlpha st) (take (Suc i) (candidatesOf inp)) emptyFrame))"
      using i on by (simp add: layoutFrame_step_keys slotOffered_def Let_def set_setAdd)
    then have "keyOf (city (candidatesOf inp ! i)) \<in> set (visibleKeys (frame (render tw inp now st)))"
      using layoutFrame_keeps_prefix_keys [OF i, of tw inp "labelAlpha st" emptyFrame]
      by (auto simp: frame_render)
    then show ?thesis using Some by simp
  qed
next
  show "labelAlpha (state (render tw inp now st))
       = updateAlpha (visibleKeys (frame (render tw inp now st))) (frameDt now st) (labelAlpha st)"
    by (simp add: render_def Let_def)
qed

text \<open>
  Claim C1, the amended statement on three frames: a second label that finds a slot one
  row below the first; a city 90 degrees away from the heading; and, in a viewport with
  a single slot, a second label that finds none and leaves the set as it was.
\<close>

theorem visible_keys_of_frame_witness:
  "keyOf (city (demoCand ''B'' 1)) \<in> set (visibleKeys (frame (render textWidth100
       (demoInput 320 60 0 [demoCity ''A'' 2, demoCity ''B'' 1] False) 0 freshState)))
   \<and> keyOf (city (demoCand ''A'' 2)) \<in> set (visibleKeys (frame (render textWidth100
       (demoInput 320 60 90 [demoCity ''A'' 2, demoCity ''B'' 1] False) 0 freshState)))
   \<and> visibleKeys (layoutFrame textWidth100
         (demoInput 320 24 0 [demoCity ''A'' 2, demoCity ''B'' 1] False) []
         [demoCand ''A'' 2, demoCand ''B'' 1] emptyFrame)
       = visibleKeys (layoutFrame textWidth100
         (demoInput 320 24 0 [demoCity ''A'' 2, demoCity ''B'' 1] False) []
         [demoCand ''A'' 2] emptyFrame)"
proof -
  define front where "front = demoInput 320 60 0 [demoCity ''A'' 2, demoCity ''B'' 1] False"
  define away where "away = demoInput 320 60 90 [demoCity ''A'' 2, demoCity ''B'' 1] False"
  define tight where "tight = demoInput 320 24 0 [demoCity ''A'' 2, demoCity ''B'' 1] False"
  have l1: "1 < length (candidatesOf front)" and c1: "candidatesOf front ! 1 = demoCand ''B'' 1"
    by (simp_all add: front_def demo_candidates2)
  have on: "\<not> itemOffscreen front (candidatesOf front ! 1)"
    unfolding c1 by (simp add: front_def demo_onscreen)
  have s: "slotOffered textWidth100 front (labelAlpha freshState) 1 = Some 30"
    using demo_slot_roomy by (simp add: front_def freshState_def)
  have 1: "keyOf (city (demoCand ''B'' 1)) \<in> set (visibleKeys (frame (render textWidth100 front 0 freshState)))"
    using visible_keys_of_frame [of front textWidth100 0 freshState,
        THEN conjunct1, rule_format, OF l1, THEN conjunct2, rule_format, OF on]
    unfolding s c1 by simp
  have l0: "0 < length (candidatesOf away)" and c0: "candidatesOf away ! 0 = demoCand ''A'' 2"
    by (simp_all add: away_def demo_candidates2)
  have off: "itemOffscreen away (candidatesOf away ! 0)"
    unfolding c0 by (simp add: away_def demo_offscreen)
  have 2: "keyOf (city (demoCand ''A'' 2)) \<in> set (visibleKeys (frame (render textWidth100 away 0 freshState)))"
    using visible_keys_of_frame [of away textWidth100 0 freshState,
        THEN conjunct1, rule_format, OF l0, THEN conjunct1, rule_format, OF off]
    unfolding c0 by simp
  have l2: "1 < length (candidatesOf tight)" and c2: "candidatesOf tight ! 1 = demoCand ''B'' 1"
    and cs: "candidatesOf tight = [demoCand ''A'' 2, demoCand ''B'' 1]"
    by (simp_all add: tight_def demo_candidates2)
  have on2: "\<not> itemOffscreen tight (candidatesOf tight ! 1)"
    unfolding c2 by (simp add: tight_def demo_onscreen)
  have s2: "slotOffered textWidth100 tight [] 1 = None"
    using demo_slot_tight by (simp add: tight_def)
  have la: "labelAlpha freshState = []" by (simp add: freshState_def)
  have 3: "visibleKeys (layoutFrame textWidth100 tight [] [demoCand ''A'' 2, demoCand ''B'' 1] emptyFrame)
       = visibleKeys (layoutFrame textWidth100 tight [] [demoCand ''A'' 2] emptyFrame)"
    using visible_keys_of_frame [of tight textWidth100 0 freshState,
        THEN conjunct1, rule_format, OF l2, THEN conjunct2, rule_format, OF on2] s2
    unfolding cs la by simp
  show ?thesis using 1 2 3 unfolding front_def away_def tight_def by blast
qed

text \<open>
  Claim C1 as stated includes the candidates dropped for want of a slot. In a viewport 24
  pixels high there is one slot; the second of two cities at the same azimuth passes the
  distance filter, is inside the field of view, is dropped, and its key is not in the
  visible-target set.
\<close>

theorem visible_keys_of_frame_counterexample:
  "demoCand ''B'' 1 \<in> set (candidatesOf (demoInput 320 24 0 [demoCity ''A'' 2, demoCity ''B'' 1] False))
   \<and> \<not> itemOffscreen (demoInput 320 24 0 [demoCity ''A'' 2, demoCity ''B'' 1] False) (demoCand ''B'' 1)
   \<and> keyOf (city (demoCand ''B'' 1)) \<notin> set (visibleKeys (frame (render textWidth100
       (demoInput 320 24 0 [demoCity ''A'' 2, demoCity ''B'' 1] False) 0 freshState)))"
  by (simp add: demo_candidates2 demo_onscreen demo_frame_tight) (simp add: demoCand_def demoCity_def keyOf_def)

text \<open>
  Claim C10. With off-screen indicators switched off, every candidate in range and outside
  the field of view has its key in the visible-target set and its alpha after the frame is
  \<open>min 1 (alpha + 4 dt)\<close>; both edge lanes stay empty; every draw call is the label of a
  candidate inside the field of view; and the visible-target set and the tracker after
  the frame are the same as with the indicators switched on.
\<close>

theorem offscreen_with_indicators_off:
  assumes "\<not> showOffscreenIndicators inp"
  shows "(\<forall>item \<in> set (candidatesOf inp). itemOffscreen inp item \<longrightarrow>
            keyOf (city item) \<in> set (visibleKeys (frame (render tw inp now st)))
          \<and> alphaOf (labelAlpha (state (render tw inp now st))) (keyOf (city item))
              = min 1 (alphaOf (labelAlpha st) (keyOf (city item)) + 4 * frameDt now st))
       \<and> edgeLeftPlaced (frame (render tw inp now st)) = []
       \<and> edgeRightPlaced (frame (render tw inp now st)) = []
       \<and> (\<forall>d \<in> set (drawn (frame (render tw inp now st))).
            \<exists>item r a. d = DrawLabel item r a \<and> \<not> itemOffscreen inp item)
       \<and> visibleKeys (frame (render tw inp now st))
           = visibleKeys (frame (render tw (inp\<lparr>showOffscreenIndicators := True\<rparr>) now st))
       \<and> labelAlpha (state (render tw inp now st))
           = labelAlpha (state (render tw (inp\<lparr>showOffscreenIndicators := True\<rparr>) now st))"
proof -
  define fr where "fr = frame (render tw inp now st)"
  have fr: "fr = layoutFrame tw inp (labelAlpha st) (candidatesOf inp) emptyFrame"
    by (simp add: fr_def frame_render)
  have st': "labelAlpha (state (render tw i now st))
      = updateAlpha (visibleKeys (frame (render tw i now st))) (frameDt now st) (labelAlpha st)" for i
    by (simp add: render_def Let_def)
  have keys: "keyOf (city item) \<in> set (visibleKeys fr)
      \<and> alphaOf (labelAlpha (state (render tw inp now st))) (keyOf (city item))
              = min 1 (alphaOf (labelAlpha st) (keyOf (city item)) + 4 * frameDt now st)"
    if "item \<in> set (candidatesOf inp)" "itemOffscreen inp item" for item
  proof -
    have k: "keyOf (city item) \<in> set (visibleKeys fr)"
      using that by (simp add: fr offscreen_key_visible)
    then have "alphaOf (updateAlpha (visibleKeys fr) (frameDt now st) (labelAlpha st)) (keyOf (city item))
        = fadeNext (visibleKeys fr) (frameDt now st) (labelAlpha st) (keyOf (city item))"
      by (intro updateAlpha_alphaOf) simp
    then show ?thesis using k by (simp add: st' fr_def fadeNext_def)
  qed
  have inv: "edgeLeftPlaced fr = [] \<and> edgeRightPlaced fr = [] \<and> list_all (onscreenLabel inp) (drawn fr)"
    unfolding fr
  proof (rule layoutFrame_invariant)
    show "edgeLeftPlaced emptyFrame = [] \<and> edgeRightPlaced emptyFrame = []
        \<and> list_all (onscreenLabel inp) (drawn emptyFrame)"
      by (simp add: emptyFrame_def)
  next
    fix x and f :: Frame
    assume "edgeLeftPlaced f = [] \<and> edgeRightPlaced f = [] \<and> list_all (onscreenLabel inp) (drawn f)"
    then show "edgeLeftPlaced (renderItem tw inp (horizonOf inp) (labelAlpha st) x f) = []
       \<and> edgeRightPlaced (renderItem tw inp (horizonOf inp) (labelAlpha st) x f) = []
       \<and> list_all (onscreenLabel inp) (drawn (renderItem tw inp (horizonOf inp) (labelAlpha st) x f))"
      by (rule renderItem_hidden_invariant [OF assms])
  qed
  have draws: "\<exists>item r a. d = DrawLabel item r a \<and> \<not> itemOffscreen inp item" if "d \<in> set (drawn fr)" for d
    using inv that by (cases d) (auto simp: list_all_iff onscreenLabel_def)
  have same: "visibleKeys fr = visibleKeys (frame (render tw (inp\<lparr>showOffscreenIndicators := True\<rparr>) now st))"
    using layoutFrame_core_flag [where fa = emptyFrame and fb = emptyFrame and b = True
        and tw = tw and inp = inp and la = "labelAlpha st" and xs = "candidatesOf inp"]
    by (simp add: fr frame_render flag_irrelevant)
  have same': "labelAlpha (state (render tw inp now st))
           = labelAlpha (state (render tw (inp\<lparr>showOffscreenIndicators := True\<rparr>) now st))"
    using same by (simp add: st' fr_def)
  show ?thesis
    using keys inv draws same same' unfolding fr_def by blast
qed

text \<open>
  Claim C10 on a frame whose two cities are 90 degrees to the left of the heading, 50 ms
  after the previous frame: the keys are targeted, the alpha of the first rises from 1/2
  to 7/10, and the left lane is empty, where it holds a chevron with the indicators on.
  On a frame with one city straight ahead, the one draw call is that city's label.
\<close>

theorem offscreen_with_indicators_off_witness:
  "keyOf (city (demoCand ''B'' 1)) \<in> set (visibleKeys (frame (render textWidth100
       (demoInput 320 60 90 [demoCity ''A'' 2, demoCity ''B'' 1] False) 1050
       \<lparr>labelAlpha = [(''A|US'', 1 / 2)], lastNow = 1000\<rparr>)))
   \<and> alphaOf (labelAlpha (state (render textWidth100
       (demoInput 320 60 90 [demoCity ''A'' 2, demoCity ''B'' 1] False) 1050
       \<lparr>labelAlpha = [(''A|US'', 1 / 2)], lastNow = 1000\<rparr>))) (keyOf (city (demoCand ''A'' 2)))
       = 7 / 10
   \<and> edgeLeftPlaced (frame (render textWidth100
       (demoInput 320 60 90 [demoCity ''A'' 2, demoCity ''B'' 1] False) 1050
       \<lparr>labelAlpha = [(''A|US'', 1 / 2)], lastNow = 1000\<rparr>)) = []
   \<and> edgeLeftPlaced (frame (render textWidth100
       (demoInput 320 60 90 [demoCity ''A'' 2, demoCity ''B'' 1] True) 1050
       \<lparr>labelAlpha = [(''A|US'', 1 / 2)], lastNow = 1000\<rparr>)) \<noteq> []
   \<and> \<not> itemOffscreen (demoInput 320 60 0 [demoCity ''A'' 2] False) (demoCand ''A'' 2)
   \<and> drawn (frame (render textWidth100 (demoInput 320 60 0 [demoCity ''A'' 2] False) 1050
       \<lparr>labelAlpha = [(''A|US'', 1 / 2)], lastNow = 1000\<rparr>))
       = [DrawLabel (demoCand ''A'' 2) \<lparr>rx = 104, ry = 0, rw = 112, rh = 24\<rparr> (1 / 2)]"
proof -
  define away where "away = demoInput 320 60 90 [demoCity ''A'' 2, demoCity ''B'' 1] False"
  define front where "front = demoInput 320 60 0 [demoCity ''A'' 2] False"
  define st where "st = \<lparr>labelAlpha = [(''A|US'', 1 / 2)], lastNow = 1000\<rparr>"
  have off: "\<not> showOffscreenIndicators away" by (simp add: away_def demoInput_def)
  note t = offscreen_with_indicators_off [OF off, of textWidth100 1050 st]
  have inB: "demoCand ''B'' 1 \<in> set (candidatesOf away)" and inA: "demoCand ''A'' 2 \<in> set (candidatesOf away)"
    by (simp_all add: away_def demo_candidates2)
  have offB: "itemOffscreen away (demoCand ''B'' 1)" and offA: "itemOffscreen away (demoCand ''A'' 2)"
    by (simp_all add: away_def demo_offscreen)
  have dt: "frameDt 1050 st = 1 / 20" by (simp add: frameDt_def st_def)
  have a0: "alphaOf (labelAlpha st) (keyOf (city (demoCand ''A'' 2))) = 1 / 2"
    by (simp add: st_def alphaOf_def keyOf_def demoCand_def demoCity_def)
  have 1: "keyOf (city (demoCand ''B'' 1)) \<in> set (visibleKeys (frame (render textWidth100 away 1050 st)))"
    using t [THEN conjunct1, rule_format, OF inB offB] by simp
  have 2: "alphaOf (labelAlpha (state (render textWidth100 away 1050 st))) (keyOf (city (demoCand ''A'' 2)))
       = 7 / 10"
    using t [THEN conjunct1, rule_format, OF inA offA] unfolding dt a0 by simp
  have 3: "edgeLeftPlaced (frame (render textWidth100 away 1050 st)) = []"
    using t by simp
  have 4: "edgeLeftPlaced (frame (render textWidth100
       (demoInput 320 60 90 [demoCity ''A'' 2, demoCity ''B'' 1] True) 1050 st)) \<noteq> []"
    by (simp add: st_def demo_frame_away_shown)
  have off': "\<not> showOffscreenIndicators front" by (simp add: front_def demoInput_def)
  have d: "drawn (frame (render textWidth100 front 1050 st))
       = [DrawLabel (demoCand ''A'' 2) \<lparr>rx = 104, ry = 0, rw = 112, rh = 24\<rparr> (1 / 2)]"
    by (simp add: front_def st_def demo_frame_drawn)
  have "\<exists>item r a. DrawLabel (demoCand ''A'' 2) \<lparr>rx = 104, ry = 0, rw = 112, rh = 24\<rparr> (1 / 2)
          = DrawLabel item r a \<and> \<not> itemOffscreen front item"
    using offscreen_with_indicators_off [OF off', of textWidth100 1050 st,
        THEN conjunct2, THEN conjunct2, THEN conjunct2, THEN conjunct1, rule_format,
        of "DrawLabel (demoCand ''A'' 2) \<lparr>rx = 104, ry = 0, rw = 112, rh = 24\<rparr> (1 / 2)"]
    by (simp add: d)
  then have 5: "\<not> itemOffscreen front (demoCand ''A'' 2)" by simp
  show ?thesis using 1 2 3 4 5 d unfolding away_def front_def st_def by blast
qed

section \<open>Claims about the orientation engine\<close>





end
